theory Spec2Isabelle
  imports Complex_Main
begin

section \<open>Tensors, values and errors\<close>

text \<open>
  The module under verification is \<^verbatim>\<open>PretrainedEmbeddingMismatchedEmbedder\<close>
  (\<^verbatim>\<open>src/modules/token_embedders/pretrained_embedding_mismatched_embedder.py\<close>):
  it embeds wordpieces with an inner embedder and pools them, token by token, to
  word-level vectors.

  A tensor is a nested list, one list level per dimension; all inputs are taken to be
  rectangular. Integer tensors (\<^verbatim>\<open>torch.LongTensor\<close>) hold \<open>int\<close>s: the wrap-around of
  64-bit arithmetic and the rounding of indices above \<open>2 ^ 24\<close> in the library's
  conversion to floats are left out, so the model speaks of offsets far from these
  bounds. The offsets tensor has a last dimension of size 2, written as a pair
  \<open>(start, end)\<close>.

  The embedding values are idealised floats: a finite float is a \<open>real\<close>, and
  rounding and overflow are left out (a sum of finite floats that overflows is
  infinite in the code and finite here). The division by a zero divisor gives a
  non-finite result whatever the floats are; the result type \<open>fval\<close> of the division
  therefore has the extra value \<open>NonFinite\<close> (NaN or an infinity). \<open>Fin x\<close> is the value
  \<open>x\<close> of exact arithmetic.
\<close>

datatype fval = Fin real | NonFinite

text \<open>
  An error is an exception that ends the call. \<open>LibraryError\<close> stands for every exception
  raised inside the tensor library or the library's utilities (\<^verbatim>\<open>ConfigurationError\<close>,
  \<^verbatim>\<open>RuntimeError\<close>, \<^verbatim>\<open>IndexError\<close>, whichever the operation raises: the kinds are not
  told apart), \<open>EmbedderError\<close> for one raised by the inner embedder.
\<close>

datatype error = LibraryError | EmbedderError

type_synonym long_tensor2 = "int list list"
type_synonym offsets_tensor = "(int \<times> int) list list"
type_synonym float_tensor3 = "real list list list"
type_synonym float_tensor4 = "real list list list list"
type_synonym bool_tensor3 = "bool list list list"

text \<open>
  \<^verbatim>\<open>t.size(1)\<close> of a tensor of rank 2 or more. A nested list with no row does not
  record the size of its inner dimensions; it is read as 0 there.
\<close>

definition size1 :: "'a list list \<Rightarrow> nat" where
  "size1 t = (case t of [] \<Rightarrow> 0 | row # _ \<Rightarrow> length row)"

text \<open>\<^verbatim>\<open>t.size(-1)\<close> of a tensor of rank 3, read in the same way.\<close>

definition size2 :: "'a list list list \<Rightarrow> nat" where
  "size2 t = (case t of [] \<Rightarrow> 0 | row # _ \<Rightarrow> (case row of [] \<Rightarrow> 0 | v # _ \<Rightarrow> length v))"

section \<open>The span selection of the tensor library\<close>

text \<open>
  \<^verbatim>\<open>forward\<close> calls \<^verbatim>\<open>allennlp.nn.util.batched_span_select(target, spans)\<close>.
  The function belongs to the AllenNLP library the repository builds on (release 1.0,
  the one whose mismatched embedder the source file follows line by line); the
  definitions below follow the library function step by step:

  \<^item> \<^verbatim>\<open>span_starts, span_ends = spans.split(1, dim=-1)\<close>,
    \<^verbatim>\<open>span_widths = span_ends - span_starts\<close>;
  \<^item> \<^verbatim>\<open>max_batch_span_width = span_widths.max().item() + 1\<close>
    (\<^verbatim>\<open>max\<close> of a tensor with no element raises);
  \<^item> \<^verbatim>\<open>max_span_range_indices = get_range_vector(max_batch_span_width, ...)\<close>,
    the vector \<open>0, 1, ..., max_batch_span_width - 1\<close>;
  \<^item> \<^verbatim>\<open>span_mask = max_span_range_indices <= span_widths\<close>;
  \<^item> \<^verbatim>\<open>raw_span_indices = span_ends - max_span_range_indices\<close>;
  \<^item> \<^verbatim>\<open>span_mask = span_mask & (raw_span_indices >= 0)\<close>;
  \<^item> \<^verbatim>\<open>span_indices = relu(raw_span_indices)\<close>;
  \<^item> \<^verbatim>\<open>span_embeddings = batched_index_select(target, span_indices)\<close>;
  \<^item> \<^verbatim>\<open>return span_embeddings, span_mask\<close>.

  The span is gathered from its end backwards (the library's documentation says that
  the order of the elements within a span is not guaranteed), and the mask depends on
  \<^verbatim>\<open>spans\<close> alone. Later releases of the library gather from the start of the span
  instead; for spans that lie within the sequence both orders select the same elements.
\<close>

definition span_widths :: "offsets_tensor \<Rightarrow> int list list" where
  "span_widths spans = map (map (\<lambda>(span_start, span_end). span_end - span_start)) spans"

definition tensor_max :: "int list list \<Rightarrow> error + int" where
  "tensor_max t = (case concat t of [] \<Rightarrow> Inl LibraryError | x # xs \<Rightarrow> Inr (fold max xs x))"

definition get_range_vector :: "int \<Rightarrow> error + int list" where
  "get_range_vector n = (if n < 0 then Inl LibraryError else Inr (map int [0..<nat n]))"

text \<open>
  \<^verbatim>\<open>batched_index_select(target, indices)\<close>: the library first checks the indices
  (\<^verbatim>\<open>flatten_and_batch_shift_indices\<close> raises \<^verbatim>\<open>ConfigurationError\<close> when the largest
  index is not below \<^verbatim>\<open>target.size(1)\<close> or the smallest is negative; \<^verbatim>\<open>max\<close> of no
  element raises), then flattens the target with \<^verbatim>\<open>target.view(-1, target.size(-1))\<close>,
  which raises when the last dimension has size 0, shifts the indices of batch row \<open>b\<close>
  by \<open>b * target.size(1)\<close> and selects from the flattened target with
  \<^verbatim>\<open>index_select\<close>. A checked index of row \<open>b\<close> therefore selects within row \<open>b\<close> of the
  target, and the selection raises when the target has no such row.
\<close>

definition batched_index_select ::
  "'a list list list \<Rightarrow> int list list list \<Rightarrow> error + 'a list list list list" where
  "batched_index_select target indices =
     (let sequence_length = int (size1 target); flat = concat (concat indices) in
      if flat = [] then Inl LibraryError
      else if list_ex (\<lambda>i. i \<ge> sequence_length \<or> i < 0) flat then Inl LibraryError
      else if size2 target = 0 then Inl LibraryError
      else if length target < length indices then Inl LibraryError
      else Inr (map2 (\<lambda>row idx. map (map (\<lambda>i. row ! nat i)) idx) target indices))"

definition batched_span_select ::
  "float_tensor3 \<Rightarrow> offsets_tensor \<Rightarrow> error + (float_tensor4 \<times> bool_tensor3)" where
  "batched_span_select target spans =
     (case tensor_max (span_widths spans) of
        Inl e \<Rightarrow> Inl e
      | Inr max_width \<Rightarrow>
          (case get_range_vector (max_width + 1) of
             Inl e \<Rightarrow> Inl e
           | Inr max_span_range_indices \<Rightarrow>
               (let span_mask = map (map (\<lambda>(span_start, span_end).
                      map (\<lambda>k. k \<le> span_end - span_start \<and> span_end - k \<ge> 0)
                        max_span_range_indices)) spans;
                    span_indices = map (map (\<lambda>(span_start, span_end).
                      map (\<lambda>k. max 0 (span_end - k)) max_span_range_indices)) spans
                in case batched_index_select target span_indices of
                     Inl e \<Rightarrow> Inl e
                   | Inr span_embeddings \<Rightarrow> Inr (span_embeddings, span_mask))))"

section \<open>The embedder\<close>

text \<open>
  The inner embedder \<^verbatim>\<open>self._matched_embedder\<close> is a \<^verbatim>\<open>PretrainedEmbeddingEmbedder\<close>,
  whose code is not among the sources. It is a parameter of the model: its forward
  function, from \<^verbatim>\<open>token_ids\<close>, \<^verbatim>\<open>wordpiece_mask\<close>, \<^verbatim>\<open>type_ids\<close> and
  \<^verbatim>\<open>segment_concat_mask\<close> to the wordpiece embeddings or an error, and the dimension
  its \<^verbatim>\<open>get_output_dim\<close> reports. The constructor (lines 30 to 42) builds the inner
  embedder from its arguments and stores it; \<^verbatim>\<open>get_output_dim\<close> (lines 45 and 46) asks it.
\<close>

record matched_embedder =
  matched_forward :: "long_tensor2 \<Rightarrow> long_tensor2 \<Rightarrow> long_tensor2 option \<Rightarrow>
    long_tensor2 option \<Rightarrow> error + float_tensor3"
  matched_output_dim :: nat

record embedder =
  matched :: matched_embedder

definition get_output_dim :: "embedder \<Rightarrow> nat" where
  "get_output_dim self = matched_output_dim (matched self)"

text \<open>The tensor operations of lines 89 to 95, with the broadcasting written out.\<close>

definition mul_mask :: "float_tensor4 \<Rightarrow> bool_tensor3 \<Rightarrow> float_tensor4" where
  "mul_mask span_embeddings span_mask =
     map2 (map2 (map2 (\<lambda>v b. map (\<lambda>x. x * of_bool b) v))) span_embeddings span_mask"

definition sum2 :: "float_tensor4 \<Rightarrow> float_tensor3" where
  "sum2 t = map (map (\<lambda>vs. map sum_list (transpose vs))) t"

definition mask_sum2 :: "bool_tensor3 \<Rightarrow> int list list" where
  "mask_sum2 t = map (map (\<lambda>bs. \<Sum>b\<leftarrow>bs. of_bool b)) t"

definition fdiv :: "real \<Rightarrow> int \<Rightarrow> fval" where
  "fdiv x n = (if n = 0 then NonFinite else Fin (x / of_int n))"

definition tensor_div :: "float_tensor3 \<Rightarrow> int list list \<Rightarrow> fval list list list" where
  "tensor_div numer denom = map2 (map2 (\<lambda>v n. map (\<lambda>x. fdiv x n) v)) numer denom"

text \<open>
  \<^verbatim>\<open>forward\<close> (lines 49 to 97). \<open>forward_locals\<close> is its body up to the return statement
  and gives the values of its local variables there: \<^verbatim>\<open>embeddings\<close> (line 82),
  \<^verbatim>\<open>span_embeddings\<close> after the in-place multiplication of line 90, \<^verbatim>\<open>span_mask\<close>,
  \<^verbatim>\<open>span_embeddings_sum\<close>, \<^verbatim>\<open>span_embeddings_len\<close> and \<^verbatim>\<open>orig_embeddings\<close> (lines 92 to
  95). An error of the inner embedder or of the span selection ends the call: the body
  has no handler. \<^verbatim>\<open>forward\<close> returns \<^verbatim>\<open>orig_embeddings\<close> (line 97). The argument
  \<^verbatim>\<open>mask\<close> is written \<open>mask'\<close>.
\<close>

record locals =
  embeddings :: float_tensor3
  span_embeddings :: float_tensor4
  span_mask :: bool_tensor3
  span_embeddings_sum :: float_tensor3
  span_embeddings_len :: "int list list"
  orig_embeddings :: "fval list list list"

definition forward_locals ::
  "embedder \<Rightarrow> long_tensor2 \<Rightarrow> long_tensor2 \<Rightarrow> offsets_tensor \<Rightarrow> long_tensor2 \<Rightarrow>
   long_tensor2 option \<Rightarrow> long_tensor2 option \<Rightarrow> error + locals" where
  "forward_locals self token_ids mask' offsets wordpiece_mask type_ids segment_concat_mask =
     (case matched_forward (matched self) token_ids wordpiece_mask type_ids segment_concat_mask of
        Inl e \<Rightarrow> Inl e
      | Inr embeddings' \<Rightarrow>
          (case batched_span_select embeddings' offsets of
             Inl e \<Rightarrow> Inl e
           | Inr (span_embeddings', span_mask') \<Rightarrow>
               (let span_embeddings = mul_mask span_embeddings' span_mask';
                    span_embeddings_sum = sum2 span_embeddings;
                    span_embeddings_len = mask_sum2 span_mask';
                    orig_embeddings = tensor_div span_embeddings_sum span_embeddings_len
                in Inr \<lparr>embeddings = embeddings', span_embeddings = span_embeddings,
                     span_mask = span_mask', span_embeddings_sum = span_embeddings_sum,
                     span_embeddings_len = span_embeddings_len,
                     orig_embeddings = orig_embeddings\<rparr>)))"

definition forward ::
  "embedder \<Rightarrow> long_tensor2 \<Rightarrow> long_tensor2 \<Rightarrow> offsets_tensor \<Rightarrow> long_tensor2 \<Rightarrow>
   long_tensor2 option \<Rightarrow> long_tensor2 option \<Rightarrow> error + fval list list list" where
  "forward self token_ids mask' offsets wordpiece_mask type_ids segment_concat_mask =
     (case forward_locals self token_ids mask' offsets wordpiece_mask type_ids segment_concat_mask of
        Inl e \<Rightarrow> Inl e
      | Inr l \<Rightarrow> Inr (orig_embeddings l))"

text \<open>
  The shape of a rank-3 tensor: \<open>has_shape3 t b n d\<close> says that \<open>t\<close> is rectangular
  with sizes \<open>b\<close>, \<open>n\<close> and \<open>d\<close>.
\<close>

definition has_shape3 :: "'a list list list \<Rightarrow> nat \<Rightarrow> nat \<Rightarrow> nat \<Rightarrow> bool" where
  "has_shape3 t b n d \<longleftrightarrow>
     length t = b \<and> (\<forall>row \<in> set t. length row = n \<and> (\<forall>v \<in> set row. length v = d))"

section \<open>The same computation on a store of tensors\<close>

text \<open>
  Tensors are mutable objects, and line 90 (\<^verbatim>\<open>span_embeddings *= span_mask\<close>) updates one
  in place. To say which tensors a call changes, the computation is written a second time
  over an explicit store: a tensor variable holds an address, the store is the list of
  the tensors allocated so far (address \<open>a\<close> holds \<open>st ! a\<close>), a tensor operation that
  builds a new tensor allocates at the end of the store, and the in-place operation
  overwrites the cell of its left operand.
\<close>

type_synonym addr = nat

datatype tensor =
    LongT long_tensor2
  | FloatT2 "real list list"
  | OffsetsT offsets_tensor
  | FloatT3 float_tensor3
  | FloatT4 float_tensor4
  | BoolT3 bool_tensor3
  | ValT "fval list list list"

type_synonym store = "tensor list"

definition alloc :: "store \<Rightarrow> tensor \<Rightarrow> addr \<times> store" where
  "alloc st t = (length st, st @ [t])"

definition lookup :: "store \<Rightarrow> addr \<Rightarrow> tensor option" where
  "lookup st a = (if a < length st then Some (st ! a) else None)"

text \<open>
  The library's operations on the store. An operand of another type or rank than the
  operation takes raises. \<^verbatim>\<open>batched_span_select\<close> builds both its results anew
  (\<^verbatim>\<open>index_select\<close> and the comparisons allocate their results).
\<close>

definition batched_span_select_st ::
  "store \<Rightarrow> addr \<Rightarrow> addr \<Rightarrow> error + ((addr \<times> addr) \<times> store)" where
  "batched_span_select_st st target spans =
     (case (lookup st target, lookup st spans) of
        (Some (FloatT3 t), Some (OffsetsT sp)) \<Rightarrow>
          (case batched_span_select t sp of
             Inl e \<Rightarrow> Inl e
           | Inr (se, sm) \<Rightarrow>
               (let (a1, st1) = alloc st (FloatT4 se);
                    (a2, st2) = alloc st1 (BoolT3 sm)
                in Inr ((a1, a2), st2)))
      | _ \<Rightarrow> Inl LibraryError)"

definition imul_st :: "store \<Rightarrow> addr \<Rightarrow> addr \<Rightarrow> error + store" where
  "imul_st st a m =
     (case (lookup st a, lookup st m) of
        (Some (FloatT4 x), Some (BoolT3 b)) \<Rightarrow> Inr (st[a := FloatT4 (mul_mask x b)])
      | _ \<Rightarrow> Inl LibraryError)"

definition sum2_st :: "store \<Rightarrow> addr \<Rightarrow> error + (addr \<times> store)" where
  "sum2_st st a =
     (case lookup st a of
        Some (FloatT4 x) \<Rightarrow> Inr (alloc st (FloatT3 (sum2 x)))
      | Some (BoolT3 b) \<Rightarrow> Inr (alloc st (LongT (mask_sum2 b)))
      | _ \<Rightarrow> Inl LibraryError)"

definition div_st :: "store \<Rightarrow> addr \<Rightarrow> addr \<Rightarrow> error + (addr \<times> store)" where
  "div_st st a b =
     (case (lookup st a, lookup st b) of
        (Some (FloatT3 x), Some (LongT n)) \<Rightarrow> Inr (alloc st (ValT (tensor_div x n)))
      | _ \<Rightarrow> Inl LibraryError)"

text \<open>
  \<^verbatim>\<open>forward\<close> on the store. Its first argument is the inner embedder's forward function on
  the store. \<^verbatim>\<open>embeddings.contiguous()\<close> is the tensor itself when it is contiguous
  already, and \<^verbatim>\<open>span_mask.unsqueeze(-1)\<close> is a view of \<^verbatim>\<open>span_mask\<close>: neither gets a
  cell of its own. The result is the address of \<^verbatim>\<open>orig_embeddings\<close> or the error, with
  the store as the call leaves it.
\<close>

type_synonym matched_forward_st =
  "store \<Rightarrow> addr \<Rightarrow> addr \<Rightarrow> addr option \<Rightarrow> addr option \<Rightarrow> (error + addr) \<times> store"

definition forward_st ::
  "matched_forward_st \<Rightarrow> store \<Rightarrow> addr \<Rightarrow> addr \<Rightarrow> addr \<Rightarrow> addr \<Rightarrow>
   addr option \<Rightarrow> addr option \<Rightarrow> (error + addr) \<times> store" where
  "forward_st matched_embedder_st st token_ids mask' offsets wordpiece_mask type_ids segment_concat_mask =
     (case matched_embedder_st st token_ids wordpiece_mask type_ids segment_concat_mask of
        (Inl e, st1) \<Rightarrow> (Inl e, st1)
      | (Inr embeddings', st1) \<Rightarrow>
          (case batched_span_select_st st1 embeddings' offsets of
             Inl e \<Rightarrow> (Inl e, st1)
           | Inr ((span_embeddings', span_mask'), st2) \<Rightarrow>
               (case imul_st st2 span_embeddings' span_mask' of
                  Inl e \<Rightarrow> (Inl e, st2)
                | Inr st3 \<Rightarrow>
                    (case sum2_st st3 span_embeddings' of
                       Inl e \<Rightarrow> (Inl e, st3)
                     | Inr (span_embeddings_sum', st4) \<Rightarrow>
                         (case sum2_st st4 span_mask' of
                            Inl e \<Rightarrow> (Inl e, st4)
                          | Inr (span_embeddings_len', st5) \<Rightarrow>
                              (case div_st st5 span_embeddings_sum' span_embeddings_len' of
                                 Inl e \<Rightarrow> (Inl e, st5)
                               | Inr (orig_embeddings', st6) \<Rightarrow> (Inr orig_embeddings', st6)))))))"

text \<open>
  \<^verbatim>\<open>get_output_dim\<close> on the store (lines 45 and 46): the call of the inner embedder's
  \<^verbatim>\<open>get_output_dim\<close> and nothing else. The inner embedder's query is a parameter, as its
  forward function is: what it returns, and whether it raises or touches the store, is
  for the inner embedder to say.
\<close>

type_synonym matched_get_output_dim_st = "store \<Rightarrow> (error + nat) \<times> store"

definition get_output_dim_st :: "matched_get_output_dim_st \<Rightarrow> store \<Rightarrow> (error + nat) \<times> store" where
  "get_output_dim_st matched_get_output_dim st = matched_get_output_dim st"

text \<open>
  An inner embedder of the first model on the store: it reads its arguments and
  allocates its result.
\<close>

definition matched_call :: "matched_embedder \<Rightarrow> matched_forward_st" where
  "matched_call m st token_ids wordpiece_mask type_ids segment_concat_mask =
     (let opt = (\<lambda>a. case a of
                        None \<Rightarrow> Some None
                      | Some a' \<Rightarrow> (case lookup st a' of Some (LongT t) \<Rightarrow> Some (Some t) | _ \<Rightarrow> None))
      in case (lookup st token_ids, lookup st wordpiece_mask, opt type_ids, opt segment_concat_mask) of
           (Some (LongT t), Some (LongT w), Some ty, Some sc) \<Rightarrow>
             (case matched_forward m t w ty sc of
                Inl e \<Rightarrow> (Inl e, st)
              | Inr emb \<Rightarrow> (let (a, st') = alloc st (FloatT3 emb) in (Inr a, st')))
         | _ \<Rightarrow> (Inl LibraryError, st))"

text \<open>
  The query of an inner embedder of the first model on the store: it returns the
  dimension and leaves the store alone.
\<close>

definition matched_dim_call :: "matched_embedder \<Rightarrow> matched_get_output_dim_st" where
  "matched_dim_call m st = (Inr (matched_output_dim m), st)"

text \<open>
  The query of an inner embedder that keeps its embedding weights, a matrix with one row
  for each entry of the vocabulary, in the store: it reports the length of a row and
  leaves the store alone.
\<close>

definition weights_dim_call :: "addr \<Rightarrow> matched_get_output_dim_st" where
  "weights_dim_call weight st =
     (case lookup st weight of
        Some (FloatT2 w) \<Rightarrow> (Inr (size1 w), st)
      | _ \<Rightarrow> (Inl EmbedderError, st))"

text \<open>
  \<open>preserved st st'\<close>: every tensor of the store \<open>st\<close> is in \<open>st'\<close> at its address with the
  value it had; \<open>st'\<close> may hold further tensors.
\<close>

definition preserved :: "store \<Rightarrow> store \<Rightarrow> bool" where
  "preserved st st' \<longleftrightarrow> take (length st) st' = st"

section \<open>The notions the claims are stated with\<close>

text \<open>
  \<open>offsets_in_range offsets n\<close>: every span \<open>(start, end)\<close> lies within the \<open>n\<close> wordpieces,
  \<open>0 \<le> start \<le> end < n\<close> (the invariant of the data model).
\<close>

definition offsets_in_range :: "offsets_tensor \<Rightarrow> nat \<Rightarrow> bool" where
  "offsets_in_range offsets n \<longleftrightarrow>
     (\<forall>(span_start, span_end) \<in> set (concat offsets).
        0 \<le> span_start \<and> span_start \<le> span_end \<and> span_end < int n)"

text \<open>
  What the span selection needs of its arguments to return (lemma
  \<open>batched_span_select_returns_iff\<close> below, a fact of the model): a token with
  \<open>start \<le> end\<close>, a wordpiece, a positive embedding size, every end index below the
  number of wordpieces, and a row of embeddings for every row of offsets.
\<close>

definition span_selection_accepts :: "float_tensor3 \<Rightarrow> offsets_tensor \<Rightarrow> bool" where
  "span_selection_accepts target spans \<longleftrightarrow>
     (\<exists>(span_start, span_end) \<in> set (concat spans). span_start \<le> span_end)
     \<and> 0 < size1 target \<and> 0 < size2 target
     \<and> (\<forall>(span_start, span_end) \<in> set (concat spans). span_end < int (size1 target))
     \<and> length spans \<le> length target"

text \<open>
  The vectors of one batch row at the wordpiece positions \<open>start\<close> through \<open>end\<close> inclusive
  (the slice \<^verbatim>\<open>row[start : end + 1]\<close> of the docstring), and the elementwise arithmetic
  mean of a list of vectors: their sum divided by their number (no list, no mean).
\<close>

definition span_vectors :: "real list list \<Rightarrow> int \<Rightarrow> int \<Rightarrow> real list list" where
  "span_vectors row span_start span_end = map ((!) row) [nat span_start..<nat (span_end + 1)]"

definition elementwise_mean :: "nat \<Rightarrow> real list list \<Rightarrow> fval list" where
  "elementwise_mean d vs =
     (if vs = [] then replicate d NonFinite
      else map (\<lambda>c. Fin ((\<Sum>v\<leftarrow>vs. v ! c) / real (length vs))) [0..<d])"

text \<open>
  The positions of a span that hold a real wordpiece according to \<^verbatim>\<open>wordpiece_mask\<close>
  (the mask is not 0 there).
\<close>

definition real_wordpieces :: "int list \<Rightarrow> int \<Rightarrow> int \<Rightarrow> nat list" where
  "real_wordpieces wordpiece_mask_row span_start span_end =
     filter (\<lambda>i. wordpiece_mask_row ! i \<noteq> 0) [nat span_start..<nat (span_end + 1)]"

text \<open>
  The pooled vector as claim C1 words it: the sum of the span's vectors divided by the
  count of real wordpieces in the span.
\<close>

definition sum_over_real_count ::
  "nat \<Rightarrow> real list list \<Rightarrow> int list \<Rightarrow> int \<Rightarrow> int \<Rightarrow> fval list" where
  "sum_over_real_count d row wordpiece_mask_row span_start span_end =
     (if real_wordpieces wordpiece_mask_row span_start span_end = [] then replicate d NonFinite
      else map (\<lambda>c. Fin ((\<Sum>v\<leftarrow>span_vectors row span_start span_end. v ! c)
                        / real (length (real_wordpieces wordpiece_mask_row span_start span_end))))
             [0..<d])"

text \<open>An inner embedder for the examples: token id \<open>t\<close> is embedded as \<open>(t, 1)\<close>.\<close>

definition lookup_embedder :: embedder where
  "lookup_embedder = \<lparr>matched = \<lparr>
     matched_forward = (\<lambda>token_ids wordpiece_mask type_ids segment_concat_mask.
       Inr (map (map (\<lambda>t. [real_of_int t, 1])) token_ids)),
     matched_output_dim = 2\<rparr>\<rparr>"

text \<open>
  A second one, which reads the wordpiece mask: token id \<open>t\<close> with mask \<open>m\<close> is embedded
  as \<open>(t * m, m)\<close>, so a masked wordpiece gets the zero vector; it raises when the two
  tensors differ in shape.
\<close>

definition masking_embedder :: embedder where
  "masking_embedder = \<lparr>matched = \<lparr>
     matched_forward = (\<lambda>token_ids wordpiece_mask type_ids segment_concat_mask.
       if map length token_ids = map length wordpiece_mask
       then Inr (map2 (map2 (\<lambda>t m. [real_of_int (t * m), real_of_int m])) token_ids wordpiece_mask)
       else Inl EmbedderError),
     matched_output_dim = 2\<rparr>\<rparr>"

text \<open>A third one, whose inner embedder reports the dimension 0: its vectors are empty.\<close>

definition zero_dim_embedder :: embedder where
  "zero_dim_embedder = \<lparr>matched = \<lparr>
     matched_forward = (\<lambda>token_ids wordpiece_mask type_ids segment_concat_mask.
       Inr (map (map (\<lambda>t. [])) token_ids)),
     matched_output_dim = 0\<rparr>\<rparr>"

section \<open>The span selection returns: what it returned, and when\<close>

lemma tensor_max_Inr:
  assumes "tensor_max t = Inr w"
  shows "w \<in> set (concat t)" and "\<And>x. x \<in> set (concat t) \<Longrightarrow> x \<le> w"
proof -
  from assms obtain x xs where c: "concat t = x # xs" and w: "w = fold max xs x"
    by (auto simp: tensor_max_def split: list.splits)
  have "Max (set (x # xs)) = fold max xs x"
    by (rule Max.set_eq_fold)
  then have m: "w = Max (set (x # xs))"
    by (simp only: w)
  show "w \<in> set (concat t)"
    unfolding c m by (rule Max_in) simp_all
  fix y assume "y \<in> set (concat t)"
  then show "y \<le> w" unfolding c m by (intro Max_ge) simp_all
qed

lemma tensor_max_nonempty: "concat t \<noteq> [] \<Longrightarrow> \<exists>w. tensor_max t = Inr w"
  by (auto simp: tensor_max_def split: list.splits)

lemma concat_span_widths:
  "concat (span_widths spans) = map (\<lambda>(s, e). e - s) (concat spans)"
  by (simp add: span_widths_def map_concat)

lemma batched_index_select_Inr:
  assumes "batched_index_select target indices = Inr r"
  shows "r = map2 (\<lambda>row idx. map (map (\<lambda>i. row ! nat i)) idx) target indices"
    and "length indices \<le> length target"
    and "concat (concat indices) \<noteq> []"
    and "\<And>i. i \<in> set (concat (concat indices)) \<Longrightarrow> 0 \<le> i \<and> i < int (size1 target)"
    and "0 < size2 target"
proof -
  from assms have ne: "concat (concat indices) \<noteq> []"
    by (auto simp: batched_index_select_def Let_def split: if_splits)
  from assms ne have ok: "\<not> list_ex (\<lambda>i. i \<ge> int (size1 target) \<or> i < 0) (concat (concat indices))"
    by (auto simp: batched_index_select_def Let_def split: if_splits)
  from assms ne ok show "r = map2 (\<lambda>row idx. map (map (\<lambda>i. row ! nat i)) idx) target indices"
    and "length indices \<le> length target" and "0 < size2 target"
    by (auto simp: batched_index_select_def Let_def split: if_splits)
  show "concat (concat indices) \<noteq> []" by (rule ne)
  fix i assume "i \<in> set (concat (concat indices))"
  with ok show "0 \<le> i \<and> i < int (size1 target)"
    unfolding list_ex_iff by fastforce
qed

lemma batched_span_select_Inr:
  assumes "batched_span_select target spans = Inr (se, sm)"
  obtains mw where "0 < mw"
    and "\<And>s e. (s, e) \<in> set (concat spans) \<Longrightarrow> e - s < int mw"
    and "\<exists>(s, e) \<in> set (concat spans). e - s + 1 = int mw"
    and "sm = map (map (\<lambda>(s, e). map (\<lambda>k. int k \<le> e - s \<and> e - int k \<ge> 0) [0..<mw])) spans"
    and "se = map2 (\<lambda>row sp. map (\<lambda>(s, e). map (\<lambda>k. row ! nat (max 0 (e - int k))) [0..<mw]) sp) target spans"
    and "length spans \<le> length target"
    and "0 < size1 target"
    and "\<And>s e. (s, e) \<in> set (concat spans) \<Longrightarrow> e < int (size1 target)"
    and "0 < size2 target"
proof -
  from assms obtain w where w: "tensor_max (span_widths spans) = Inr w"
    by (auto simp: batched_span_select_def split: sum.splits)
  from assms w have nn: "0 \<le> w + 1"
    by (auto simp: batched_span_select_def get_range_vector_def split: sum.splits if_splits)
  define mw where "mw = nat (w + 1)"
  let ?idx = "map (map (\<lambda>(span_start, span_end).
                      map (\<lambda>k. max 0 (span_end - k)) (map int [0..<mw]))) spans"
  from assms w nn have bis: "batched_index_select target ?idx = Inr se"
    and sm: "sm = map (map (\<lambda>(span_start, span_end).
                      map (\<lambda>k. k \<le> span_end - span_start \<and> span_end - k \<ge> 0)
                        (map int [0..<mw]))) spans"
    by (auto simp: batched_span_select_def get_range_vector_def mw_def Let_def split: sum.splits if_splits)
  note B = batched_index_select_Inr[OF bis]
  have mwpos: "0 < mw"
  proof (rule ccontr)
    assume "\<not> 0 < mw"
    then have "concat (concat ?idx) = []" by (auto simp: split_def)
    with B(3) show False by simp
  qed
  have 1: "\<And>s e. (s, e) \<in> set (concat spans) \<Longrightarrow> e - s < int mw"
  proof -
    fix s e assume "(s, e) \<in> set (concat spans)"
    then have "e - s \<in> set (concat (span_widths spans))"
      by (force simp: concat_span_widths)
    from tensor_max_Inr(2)[OF w this] show "e - s < int mw" using nn by (simp add: mw_def)
  qed
  have 2: "\<exists>(s, e) \<in> set (concat spans). e - s + 1 = int mw"
    using tensor_max_Inr(1)[OF w] nn by (auto simp: concat_span_widths mw_def)
  have 3: "se = map2 (\<lambda>row sp. map (\<lambda>(s, e). map (\<lambda>k. row ! nat (max 0 (e - int k))) [0..<mw]) sp) target spans"
    unfolding B(1) by (simp add: zip_map2 split_def comp_def)
  have idx: "\<And>s e. (s, e) \<in> set (concat spans) \<Longrightarrow> max 0 e \<in> set (concat (concat ?idx))"
    using mwpos by (force simp: split_def image_iff)
  have 4: "\<And>s e. (s, e) \<in> set (concat spans) \<Longrightarrow> e < int (size1 target)"
    using B(4)[OF idx] by force
  from 2 obtain s e where "(s, e) \<in> set (concat spans)" by auto
  from B(4)[OF idx[OF this]] have 5: "0 < size1 target" by simp
  have 6: "sm = map (map (\<lambda>(s, e). map (\<lambda>k. int k \<le> e - s \<and> e - int k \<ge> 0) [0..<mw])) spans"
    by (simp add: sm comp_def split_def)
  show ?thesis
  proof (rule that[of mw])
    show "0 < mw" by (rule mwpos)
    show "\<And>s e. (s, e) \<in> set (concat spans) \<Longrightarrow> e - s < int mw" by (rule 1)
    show "\<exists>(s, e) \<in> set (concat spans). e - s + 1 = int mw" by (rule 2)
    show "sm = map (map (\<lambda>(s, e). map (\<lambda>k. int k \<le> e - s \<and> e - int k \<ge> 0) [0..<mw])) spans" by (rule 6)
    show "se = map2 (\<lambda>row sp. map (\<lambda>(s, e). map (\<lambda>k. row ! nat (max 0 (e - int k))) [0..<mw]) sp) target spans" by (rule 3)
    show "length spans \<le> length target" using B(2) by simp
    show "0 < size1 target" by (rule 5)
    show "\<And>s e. (s, e) \<in> set (concat spans) \<Longrightarrow> e < int (size1 target)" by (rule 4)
    show "0 < size2 target" by (rule B(5))
  qed
qed

lemma batched_span_select_succeeds:
  assumes ne: "\<exists>(s, e) \<in> set (concat spans). s \<le> e"
    and pos: "0 < size1 target"
    and rng: "\<And>s e. (s, e) \<in> set (concat spans) \<Longrightarrow> e < int (size1 target)"
    and len: "length spans \<le> length target"
    and dim: "0 < size2 target"
  shows "\<exists>r. batched_span_select target spans = Inr r"
proof -
  from ne have "concat spans \<noteq> []"
    by (metis empty_iff list.set(1))
  then have "concat (span_widths spans) \<noteq> []"
    by (simp add: concat_span_widths)
  then obtain w where w: "tensor_max (span_widths spans) = Inr w"
    using tensor_max_nonempty by blast
  from ne obtain s e where se: "(s, e) \<in> set (concat spans)" "s \<le> e" by auto
  then have "e - s \<in> set (concat (span_widths spans))"
    by (force simp: concat_span_widths)
  from tensor_max_Inr(2)[OF w this] se have w0: "0 \<le> w" by simp
  define mw where "mw = nat (w + 1)"
  have mwpos: "0 < mw" using w0 by (simp add: mw_def)
  let ?idx = "map (map (\<lambda>(span_start, span_end).
                      map (\<lambda>k. max 0 (span_end - k)) (map int [0..<mw]))) spans"
  have flat: "concat (concat ?idx) \<noteq> []"
  proof -
    have "max 0 e \<in> set (concat (concat ?idx))"
      using mwpos se(1) by (force simp: split_def image_iff)
    then show ?thesis by (metis empty_iff list.set(1))
  qed
  have ok: "\<not> list_ex (\<lambda>i. i \<ge> int (size1 target) \<or> i < 0) (concat (concat ?idx))"
    using rng pos by (fastforce simp: list_ex_iff split_def)
  have "\<exists>r. batched_index_select target ?idx = Inr r"
    using flat ok len dim by (simp add: batched_index_select_def Let_def)
  then show ?thesis
    using w w0 by (auto simp: batched_span_select_def get_range_vector_def mw_def Let_def split: sum.splits)
qed

section \<open>What forward computes for a token\<close>

lemma forward_locals_Inr:
  assumes "forward_locals self token_ids mask' offsets wordpiece_mask type_ids segment_concat_mask = Inr l"
  obtains se sm where
    "matched_forward (matched self) token_ids wordpiece_mask type_ids segment_concat_mask = Inr (embeddings l)"
    "batched_span_select (embeddings l) offsets = Inr (se, sm)"
    "span_mask l = sm"
    "span_embeddings l = mul_mask se sm"
    "span_embeddings_sum l = sum2 (span_embeddings l)"
    "span_embeddings_len l = mask_sum2 sm"
    "orig_embeddings l = tensor_div (span_embeddings_sum l) (span_embeddings_len l)"
  using assms
  by (auto simp: forward_locals_def Let_def split: sum.splits prod.splits)

lemma map2_map_same: "map2 f (map g xs) (map h xs) = map (\<lambda>x. f (g x) (h x)) xs"
  by (induction xs) simp_all

lemma forward_locals_token:
  assumes run: "forward_locals self token_ids mask' offsets wordpiece_mask type_ids segment_concat_mask = Inr l"
    and b: "b < length offsets" and j: "j < length (offsets ! b)"
    and tok: "offsets ! b ! j = (s, e)"
  obtains mw where "0 < mw" "e - s < int mw" "e < int (size1 (embeddings l))"
    "b < length (embeddings l)"
    "span_mask l ! b ! j = map (\<lambda>k. int k \<le> e - s \<and> e - int k \<ge> 0) [0..<mw]"
    "span_embeddings l ! b ! j =
       map (\<lambda>k. map (\<lambda>x. x * of_bool (int k \<le> e - s \<and> e - int k \<ge> 0))
                  (embeddings l ! b ! nat (max 0 (e - int k)))) [0..<mw]"
    "span_embeddings_len l ! b ! j = (\<Sum>k\<leftarrow>[0..<mw]. of_bool (int k \<le> e - s \<and> e - int k \<ge> 0))"
    "span_embeddings_sum l ! b ! j = map sum_list (transpose (span_embeddings l ! b ! j))"
    "orig_embeddings l ! b ! j =
       map (\<lambda>x. fdiv x (span_embeddings_len l ! b ! j)) (span_embeddings_sum l ! b ! j)"
proof -
  from run obtain se sm where
    sel: "batched_span_select (embeddings l) offsets = Inr (se, sm)"
    and l: "span_mask l = sm" "span_embeddings l = mul_mask se sm"
      "span_embeddings_sum l = sum2 (span_embeddings l)"
      "span_embeddings_len l = mask_sum2 sm"
      "orig_embeddings l = tensor_div (span_embeddings_sum l) (span_embeddings_len l)"
    by (rule forward_locals_Inr)
  from sel obtain mw where mw: "0 < mw"
    and w: "\<And>s e. (s, e) \<in> set (concat offsets) \<Longrightarrow> e - s < int mw"
    and sm: "sm = map (map (\<lambda>(s, e). map (\<lambda>k. int k \<le> e - s \<and> e - int k \<ge> 0) [0..<mw])) offsets"
    and se: "se = map2 (\<lambda>row sp. map (\<lambda>(s, e). map (\<lambda>k. row ! nat (max 0 (e - int k))) [0..<mw]) sp) (embeddings l) offsets"
    and len: "length offsets \<le> length (embeddings l)"
    and r: "\<And>s e. (s, e) \<in> set (concat offsets) \<Longrightarrow> e < int (size1 (embeddings l))"
    by (rule batched_span_select_Inr) blast
  have mem: "(s, e) \<in> set (concat offsets)"
    using b j tok by (metis nth_mem set_concat UN_I)
  have bl: "b < length (embeddings l)" using b len by simp
  have smj: "sm ! b ! j = map (\<lambda>k. int k \<le> e - s \<and> e - int k \<ge> 0) [0..<mw]"
    using b j tok by (simp add: sm)
  have sej: "se ! b ! j = map (\<lambda>k. embeddings l ! b ! nat (max 0 (e - int k))) [0..<mw]"
    using b j tok bl by (simp add: se)
  have lse: "length se = length offsets" "length (se ! b) = length (offsets ! b)"
    using b bl len by (simp_all add: se)
  have lsm: "length sm = length offsets" "length (sm ! b) = length (offsets ! b)"
    using b by (simp_all add: sm)
  have mulj: "span_embeddings l ! b ! j =
       map (\<lambda>k. map (\<lambda>x. x * of_bool (int k \<le> e - s \<and> e - int k \<ge> 0))
                  (embeddings l ! b ! nat (max 0 (e - int k)))) [0..<mw]"
    using b j lse lsm by (simp add: l(2) mul_mask_def smj sej map2_map_same)
  have lenj: "span_embeddings_len l ! b ! j = (\<Sum>k\<leftarrow>[0..<mw]. of_bool (int k \<le> e - s \<and> e - int k \<ge> 0))"
    using b j lsm by (simp add: l(4) mask_sum2_def smj comp_def)
  have lmul: "length (span_embeddings l) = length offsets"
    "length (span_embeddings l ! b) = length (offsets ! b)"
    using b lse lsm by (simp_all add: l(2) mul_mask_def)
  have sumj: "span_embeddings_sum l ! b ! j = map sum_list (transpose (span_embeddings l ! b ! j))"
    using b j lmul by (simp add: l(3) sum2_def)
  have lsum: "length (span_embeddings_sum l) = length offsets"
    "length (span_embeddings_sum l ! b) = length (offsets ! b)"
    using b lmul by (simp_all add: l(3) sum2_def)
  have llen: "length (span_embeddings_len l) = length offsets"
    "length (span_embeddings_len l ! b) = length (offsets ! b)"
    using b lsm by (simp_all add: l(4) mask_sum2_def)
  have origj: "orig_embeddings l ! b ! j =
       map (\<lambda>x. fdiv x (span_embeddings_len l ! b ! j)) (span_embeddings_sum l ! b ! j)"
    using b j lsum llen by (simp add: l(5) tensor_div_def)
  show ?thesis
    by (rule that[OF mw w[OF mem] r[OF mem] bl _ mulj lenj sumj origj]) (simp add: l(1) smj)
qed

lemma forward_locals_lengths:
  assumes run: "forward_locals self token_ids mask' offsets wordpiece_mask type_ids segment_concat_mask = Inr l"
  shows "length (orig_embeddings l) = length offsets"
    and "b < length offsets \<Longrightarrow> length (orig_embeddings l ! b) = length (offsets ! b)"
proof -
  from run obtain se sm where
    sel: "batched_span_select (embeddings l) offsets = Inr (se, sm)"
    and l: "span_mask l = sm" "span_embeddings l = mul_mask se sm"
      "span_embeddings_sum l = sum2 (span_embeddings l)"
      "span_embeddings_len l = mask_sum2 sm"
      "orig_embeddings l = tensor_div (span_embeddings_sum l) (span_embeddings_len l)"
    by (rule forward_locals_Inr)
  from sel obtain mw where
    sm: "sm = map (map (\<lambda>(s, e). map (\<lambda>k. int k \<le> e - s \<and> e - int k \<ge> 0) [0..<mw])) offsets"
    and se: "se = map2 (\<lambda>row sp. map (\<lambda>(s, e). map (\<lambda>k. row ! nat (max 0 (e - int k))) [0..<mw]) sp) (embeddings l) offsets"
    and len: "length offsets \<le> length (embeddings l)"
    by (rule batched_span_select_Inr) blast
  show "length (orig_embeddings l) = length offsets"
    using len by (simp add: l tensor_div_def sum2_def mask_sum2_def mul_mask_def sm se)
  assume "b < length offsets"
  then show "length (orig_embeddings l ! b) = length (offsets ! b)"
    using len by (simp add: l tensor_div_def sum2_def mask_sum2_def mul_mask_def sm se)
qed

lemma mask_iff: "(int k \<le> e - s \<and> e - int k \<ge> 0) \<longleftrightarrow> int k \<le> e - max 0 s"
  by auto

lemma mask_count:
  assumes "e - s < int mw"
  shows "(\<Sum>k\<leftarrow>[0..<mw]. of_bool (int k \<le> e - s \<and> e - int k \<ge> 0)) = max 0 (e - max 0 s + 1)"
proof -
  define w where "w = e - max 0 s"
  have wm: "w < int mw" using assms by (simp add: w_def)
  have "(\<Sum>k\<leftarrow>[0..<mw]. of_bool (int k \<le> e - s \<and> e - int k \<ge> 0)) = (\<Sum>k\<leftarrow>[0..<mw]. (of_bool (int k \<le> w) :: int))"
    unfolding mask_iff w_def ..
  also have "\<dots> = (\<Sum>k\<in>{0..<mw}. of_bool (int k \<le> w))"
    by (simp add: interv_sum_list_conv_sum_set_nat)
  also have "\<dots> = int (card ({0..<mw} \<inter> {k. int k \<le> w}))"
    by simp
  also have "{0..<mw} \<inter> {k. int k \<le> w} = {0..<nat (w + 1)}"
    using wm by auto
  also have "int (card {0..<nat (w + 1)}) = max 0 (w + 1)" by simp
  finally show ?thesis by (simp add: w_def)
qed

lemma masked_sum:
  fixes f :: "nat \<Rightarrow> real"
  assumes "e - s < int mw"
  shows "(\<Sum>k\<leftarrow>[0..<mw]. f (nat (max 0 (e - int k))) * of_bool (int k \<le> e - s \<and> e - int k \<ge> 0))
       = (\<Sum>i\<leftarrow>[nat (max 0 s)..<nat (e + 1)]. f i)"
proof -
  define w where "w = e - max 0 s"
  have wm: "w < int mw" using assms by (simp add: w_def)
  have "(\<Sum>k\<leftarrow>[0..<mw]. f (nat (max 0 (e - int k))) * of_bool (int k \<le> e - s \<and> e - int k \<ge> 0))
      = (\<Sum>k\<leftarrow>[0..<mw]. f (nat (max 0 (e - int k))) * of_bool (int k \<le> w))"
    unfolding mask_iff w_def ..
  also have "\<dots> = (\<Sum>k\<in>{0..<mw}. f (nat (max 0 (e - int k))) * of_bool (int k \<le> w))"
    by (simp add: interv_sum_list_conv_sum_set_nat)
  also have "\<dots> = (\<Sum>k\<in>{0..<mw} \<inter> {k. int k \<le> w}. f (nat (max 0 (e - int k))))"
    by simp
  also have "{0..<mw} \<inter> {k. int k \<le> w} = {0..<nat (w + 1)}"
    using wm by auto
  also have "(\<Sum>k\<in>{0..<nat (w + 1)}. f (nat (max 0 (e - int k)))) = (\<Sum>i\<in>{nat (max 0 s)..<nat (e + 1)}. f i)"
    by (rule sum.reindex_bij_witness[of _ "\<lambda>i. nat (e - int i)" "\<lambda>k. nat (max 0 (e - int k))"])
       (auto simp: w_def)
  also have "\<dots> = (\<Sum>i\<leftarrow>[nat (max 0 s)..<nat (e + 1)]. f i)"
    by (simp add: interv_sum_list_conv_sum_set_nat)
  finally show ?thesis .
qed

lemma sum_transpose:
  assumes "0 < mw" and "\<And>k. k < mw \<Longrightarrow> length (g k) = d"
  shows "map sum_list (transpose (map g [0..<mw])) = map (\<lambda>c. \<Sum>k\<leftarrow>[0..<mw]. g k ! c) [0..<d]"
proof -
  have "transpose (map g [0..<mw]) =
      map (\<lambda>i. map (\<lambda>j. map g [0..<mw] ! j ! i) [0..<length (map g [0..<mw])]) [0..<d]"
    by (rule transpose_rectangle) (use assms in auto)
  also have "\<dots> = map (\<lambda>c. map (\<lambda>k. g k ! c) [0..<mw]) [0..<d]"
    by simp
  finally show ?thesis by (simp add: comp_def)
qed

lemma has_shape3_nth:
  assumes "has_shape3 t bs n d" "b < length t"
  shows "length (t ! b) = n" and "size1 t = n" and "\<And>i. i < n \<Longrightarrow> length (t ! b ! i) = d"
proof -
  from assms show 1: "length (t ! b) = n" by (simp add: has_shape3_def)
  from assms show "size1 t = n" by (cases t) (auto simp: has_shape3_def size1_def)
  fix i assume "i < n"
  with 1 have "t ! b ! i \<in> set (t ! b)" by simp
  moreover from assms have "t ! b \<in> set t" by simp
  ultimately show "length (t ! b ! i) = d" using assms(1) unfolding has_shape3_def by blast
qed

lemma forward_locals_pooled:
  assumes run: "forward_locals self token_ids mask' offsets wordpiece_mask type_ids segment_concat_mask = Inr l"
    and shape: "has_shape3 (embeddings l) bs n d"
    and b: "b < length offsets" and j: "j < length (offsets ! b)"
    and tok: "offsets ! b ! j = (s, e)"
  shows "span_embeddings_sum l ! b ! j =
           map (\<lambda>c. \<Sum>i\<leftarrow>[nat (max 0 s)..<nat (e + 1)]. embeddings l ! b ! i ! c) [0..<d]"
    and "span_embeddings_len l ! b ! j = max 0 (e - max 0 s + 1)"
    and "orig_embeddings l ! b ! j =
           map (\<lambda>c. fdiv (\<Sum>i\<leftarrow>[nat (max 0 s)..<nat (e + 1)]. embeddings l ! b ! i ! c)
                          (max 0 (e - max 0 s + 1))) [0..<d]"
proof -
  from run b j tok obtain mw where mw: "0 < mw" "e - s < int mw"
    and r: "e < int (size1 (embeddings l))"
    and bl: "b < length (embeddings l)"
    and se: "span_embeddings l ! b ! j =
       map (\<lambda>k. map (\<lambda>x. x * of_bool (int k \<le> e - s \<and> e - int k \<ge> 0))
                  (embeddings l ! b ! nat (max 0 (e - int k)))) [0..<mw]"
    and ln: "span_embeddings_len l ! b ! j = (\<Sum>k\<leftarrow>[0..<mw]. of_bool (int k \<le> e - s \<and> e - int k \<ge> 0))"
    and sm: "span_embeddings_sum l ! b ! j = map sum_list (transpose (span_embeddings l ! b ! j))"
    and og: "orig_embeddings l ! b ! j =
       map (\<lambda>x. fdiv x (span_embeddings_len l ! b ! j)) (span_embeddings_sum l ! b ! j)"
    by (rule forward_locals_token)
  note S = has_shape3_nth[OF shape bl]
  have npos: "0 < n"
  proof -
    from run obtain se sm where "batched_span_select (embeddings l) offsets = Inr (se, sm)"
      by (rule forward_locals_Inr)
    then have "0 < size1 (embeddings l)" by (rule batched_span_select_Inr)
    then show ?thesis by (simp add: S(2))
  qed
  have idx: "\<And>k. nat (max 0 (e - int k)) < n"
    using r npos by (auto simp: S(2))
  show len: "span_embeddings_len l ! b ! j = max 0 (e - max 0 s + 1)"
    unfolding ln by (rule mask_count[OF mw(2)])
  have "span_embeddings_sum l ! b ! j =
      map (\<lambda>c. \<Sum>k\<leftarrow>[0..<mw]. map (\<lambda>x. x * of_bool (int k \<le> e - s \<and> e - int k \<ge> 0))
                  (embeddings l ! b ! nat (max 0 (e - int k))) ! c) [0..<d]"
    unfolding sm se by (rule sum_transpose[OF mw(1)]) (simp add: S(3)[OF idx])
  also have "\<dots> = map (\<lambda>c. \<Sum>k\<leftarrow>[0..<mw]. embeddings l ! b ! nat (max 0 (e - int k)) ! c
                              * of_bool (int k \<le> e - s \<and> e - int k \<ge> 0)) [0..<d]"
    by (simp add: S(3)[OF idx])
  also have "\<dots> = map (\<lambda>c. \<Sum>i\<leftarrow>[nat (max 0 s)..<nat (e + 1)]. embeddings l ! b ! i ! c) [0..<d]"
    using masked_sum[OF mw(2), of "\<lambda>i. embeddings l ! b ! i ! _"] by simp
  finally show sum: "span_embeddings_sum l ! b ! j =
           map (\<lambda>c. \<Sum>i\<leftarrow>[nat (max 0 s)..<nat (e + 1)]. embeddings l ! b ! i ! c) [0..<d]" .
  show "orig_embeddings l ! b ! j =
           map (\<lambda>c. fdiv (\<Sum>i\<leftarrow>[nat (max 0 s)..<nat (e + 1)]. embeddings l ! b ! i ! c)
                          (max 0 (e - max 0 s + 1))) [0..<d]"
    unfolding og len sum by (simp add: comp_def)
qed

lemma forward_locals_succeeds:
  assumes inner: "matched_forward (matched self) token_ids wordpiece_mask type_ids segment_concat_mask = Inr emb"
    and ne: "\<exists>(s, e) \<in> set (concat offsets). s \<le> e"
    and pos: "0 < size1 emb"
    and rng: "\<And>s e. (s, e) \<in> set (concat offsets) \<Longrightarrow> e < int (size1 emb)"
    and len: "length offsets \<le> length emb"
    and dim: "0 < size2 emb"
  shows "\<exists>l. forward_locals self token_ids mask' offsets wordpiece_mask type_ids segment_concat_mask = Inr l
          \<and> embeddings l = emb"
proof -
  from batched_span_select_succeeds[OF ne pos rng len dim]
  obtain se sm where "batched_span_select emb offsets = Inr (se, sm)" by force
  with inner show ?thesis by (simp add: forward_locals_def Let_def)
qed

lemma forward_Inr:
  "forward self token_ids mask' offsets wordpiece_mask type_ids segment_concat_mask = Inr out \<longleftrightarrow>
   (\<exists>l. forward_locals self token_ids mask' offsets wordpiece_mask type_ids segment_concat_mask = Inr l
      \<and> orig_embeddings l = out)"
  by (auto simp: forward_def split: sum.splits)

lemma forward_locals_Inr_conditions:
  assumes run: "forward_locals self token_ids mask' offsets wordpiece_mask type_ids segment_concat_mask = Inr l"
  shows "(\<exists>(s, e) \<in> set (concat offsets). s \<le> e)"
    and "0 < size1 (embeddings l)"
    and "\<And>s e. (s, e) \<in> set (concat offsets) \<Longrightarrow> e < int (size1 (embeddings l))"
    and "length offsets \<le> length (embeddings l)"
proof -
  from run obtain se sm where
    sel: "batched_span_select (embeddings l) offsets = Inr (se, sm)"
    by (rule forward_locals_Inr)
  from sel obtain mw where mw: "0 < mw"
    and ex: "\<exists>(s, e) \<in> set (concat offsets). e - s + 1 = int mw"
    and len: "length offsets \<le> length (embeddings l)"
    and pos: "0 < size1 (embeddings l)"
    and r: "\<And>s e. (s, e) \<in> set (concat offsets) \<Longrightarrow> e < int (size1 (embeddings l))"
    by (rule batched_span_select_Inr) blast
  from ex obtain s e where "(s, e) \<in> set (concat offsets)" "e - s + 1 = int mw" by auto
  with mw have "(s, e) \<in> set (concat offsets)" "s \<le> e" by simp_all
  then show "\<exists>(s, e) \<in> set (concat offsets). s \<le> e" by blast
  show "0 < size1 (embeddings l)" by (rule pos)
  show "length offsets \<le> length (embeddings l)" by (rule len)
  fix s e assume "(s, e) \<in> set (concat offsets)"
  then show "e < int (size1 (embeddings l))" by (rule r)
qed

lemma span_vectors_sum:
  "(\<Sum>v\<leftarrow>span_vectors row s e. v ! c) = (\<Sum>i\<leftarrow>[nat s..<nat (e + 1)]. row ! i ! c)"
  by (simp add: span_vectors_def comp_def)

lemma length_span_vectors: "0 \<le> s \<Longrightarrow> s \<le> e \<Longrightarrow> int (length (span_vectors row s e)) = e - s + 1"
  by (simp add: span_vectors_def)

lemma forward_locals_embeddings:
  assumes "forward_locals self token_ids mask' offsets wordpiece_mask type_ids segment_concat_mask = Inr l"
  shows "matched_forward (matched self) token_ids wordpiece_mask type_ids segment_concat_mask = Inr (embeddings l)"
  using assms by (rule forward_locals_Inr)

lemma batched_span_select_mask:
  "batched_span_select t spans = Inr (se, sm) \<Longrightarrow> batched_span_select t' spans = Inr (se', sm')
   \<Longrightarrow> sm = sm'"
  by (auto simp: batched_span_select_def Let_def split: sum.splits)

lemma forward_locals_mask_determined:
  assumes "forward_locals self token_ids mask' offsets wordpiece_mask type_ids segment_concat_mask = Inr l"
    and "forward_locals self2 token_ids2 mask2 offsets wordpiece_mask2 type_ids2 segment_concat_mask2 = Inr l2"
  shows "span_mask l2 = span_mask l" and "span_embeddings_len l2 = span_embeddings_len l"
proof -
  from assms(1) obtain se sm where 1: "batched_span_select (embeddings l) offsets = Inr (se, sm)"
    "span_mask l = sm" "span_embeddings_len l = mask_sum2 sm"
    by (rule forward_locals_Inr)
  from assms(2) obtain se2 sm2 where 2: "batched_span_select (embeddings l2) offsets = Inr (se2, sm2)"
    "span_mask l2 = sm2" "span_embeddings_len l2 = mask_sum2 sm2"
    by (rule forward_locals_Inr)
  from batched_span_select_mask[OF 1(1) 2(1)] have "sm = sm2" .
  with 1 2 show "span_mask l2 = span_mask l" and "span_embeddings_len l2 = span_embeddings_len l"
    by simp_all
qed

lemma forward_locals_len:
  assumes run: "forward_locals self token_ids mask' offsets wordpiece_mask type_ids segment_concat_mask = Inr l"
    and b: "b < length offsets" and j: "j < length (offsets ! b)"
    and tok: "offsets ! b ! j = (s, e)"
  shows "span_embeddings_len l ! b ! j = max 0 (e - max 0 s + 1)"
proof -
  from run b j tok obtain mw where mw: "e - s < int mw"
    and ln: "span_embeddings_len l ! b ! j = (\<Sum>k\<leftarrow>[0..<mw]. of_bool (int k \<le> e - s \<and> e - int k \<ge> 0))"
    by (rule forward_locals_token)
  show ?thesis unfolding ln by (rule mask_count[OF mw])
qed

lemma map_nth_fun: "length v = d \<Longrightarrow> map (\<lambda>c. f (v ! c)) [0..<d] = map f v"
  by (auto intro: nth_equalityI)

lemma length_span_vectors_clipped:
  "int (length (span_vectors row (max 0 s) e)) = max 0 (e - max 0 s + 1)"
  by (simp add: span_vectors_def max_def)

section \<open>When forward returns\<close>

lemma batched_span_select_returns_iff:
  "(\<exists>r. batched_span_select target spans = Inr r) \<longleftrightarrow> span_selection_accepts target spans"
proof
  assume "\<exists>r. batched_span_select target spans = Inr r"
  then obtain se sm where r: "batched_span_select target spans = Inr (se, sm)" by force
  from r obtain mw where mw: "0 < mw"
    and ex: "\<exists>(s, e) \<in> set (concat spans). e - s + 1 = int mw"
    and len: "length spans \<le> length target"
    and pos: "0 < size1 target"
    and rg: "\<And>s e. (s, e) \<in> set (concat spans) \<Longrightarrow> e < int (size1 target)"
    and dim: "0 < size2 target"
    by (rule batched_span_select_Inr) blast
  from ex obtain s e where "(s, e) \<in> set (concat spans)" "e - s + 1 = int mw" by auto
  with mw have "(s, e) \<in> set (concat spans)" "s \<le> e" by simp_all
  then have "\<exists>(s, e) \<in> set (concat spans). s \<le> e" by blast
  with len pos rg dim show "span_selection_accepts target spans"
    unfolding span_selection_accepts_def by blast
next
  assume a: "span_selection_accepts target spans"
  show "\<exists>r. batched_span_select target spans = Inr r"
  proof (rule batched_span_select_succeeds)
    show "\<exists>(s, e) \<in> set (concat spans). s \<le> e" using a by (simp add: span_selection_accepts_def)
    show "0 < size1 target" using a by (simp add: span_selection_accepts_def)
    show "length spans \<le> length target" using a by (simp add: span_selection_accepts_def)
    show "0 < size2 target" using a by (simp add: span_selection_accepts_def)
    fix s e assume "(s, e) \<in> set (concat spans)"
    with a show "e < int (size1 target)" unfolding span_selection_accepts_def by blast
  qed
qed

lemma has_shape3_size2:
  assumes "has_shape3 t b n d" and "t \<noteq> []" and "0 < n"
  shows "size2 t = d"
proof -
  from assms(2) obtain row rest where t: "t = row # rest" by (cases t) auto
  with assms(1) have lr: "length row = n" and vs: "\<forall>v \<in> set row. length v = d"
    by (auto simp: has_shape3_def)
  from lr assms(3) obtain v vrest where row: "row = v # vrest" by (cases row) auto
  with vs have "length v = d" by simp
  with t row show ?thesis by (simp add: size2_def)
qed

lemma in_range_accepts:
  assumes shape: "has_shape3 emb (length offsets) n d"
    and ne: "concat offsets \<noteq> []"
    and rng: "offsets_in_range offsets n"
    and dim: "0 < d"
  shows "span_selection_accepts emb offsets"
proof -
  from ne obtain s0 e0 where t0: "(s0, e0) \<in> set (concat offsets)"
    by (cases "concat offsets") auto
  with rng have r0: "0 \<le> s0" "s0 \<le> e0" "e0 < int n" by (auto simp: offsets_in_range_def)
  from t0 have "offsets \<noteq> []" by auto
  with shape have "emb \<noteq> []" by (auto simp: has_shape3_def)
  with shape have sz: "size1 emb = n" by (cases emb) (auto simp: has_shape3_def size1_def)
  have "\<exists>(s, e) \<in> set (concat offsets). s \<le> e" using t0 r0 by auto
  moreover have "0 < size1 emb" using r0 sz by simp
  moreover have "\<forall>(s, e) \<in> set (concat offsets). e < int (size1 emb)"
      using rng sz by (auto simp: offsets_in_range_def)
  moreover have "length offsets \<le> length emb" using shape by (simp add: has_shape3_def)
  moreover have "0 < size2 emb"
  proof -
    from r0 have "0 < n" by simp
    from has_shape3_size2[OF shape \<open>emb \<noteq> []\<close> this] dim show ?thesis by simp
  qed
  ultimately show ?thesis unfolding span_selection_accepts_def by blast
qed

lemma forward_locals_accepts:
  assumes inner: "matched_forward (matched self) token_ids wordpiece_mask type_ids segment_concat_mask = Inr emb"
    and acc: "span_selection_accepts emb offsets"
  shows "\<exists>l. forward_locals self token_ids mask' offsets wordpiece_mask type_ids segment_concat_mask = Inr l
          \<and> embeddings l = emb"
proof (rule forward_locals_succeeds[OF inner])
  show "\<exists>(s, e) \<in> set (concat offsets). s \<le> e" using acc by (simp add: span_selection_accepts_def)
  show "0 < size1 emb" using acc by (simp add: span_selection_accepts_def)
  show "length offsets \<le> length emb" using acc by (simp add: span_selection_accepts_def)
  show "0 < size2 emb" using acc by (simp add: span_selection_accepts_def)
  fix s e assume "(s, e) \<in> set (concat offsets)"
  with acc show "e < int (size1 emb)" unfolding span_selection_accepts_def by blast
qed

lemma span_vectors_nonempty: "0 \<le> s \<Longrightarrow> s \<le> e \<Longrightarrow> span_vectors row s e \<noteq> []"
  by (simp add: span_vectors_def)

lemma real_length_span_vectors:
  "0 \<le> s \<Longrightarrow> s \<le> e \<Longrightarrow> real (length (span_vectors row s e)) = real_of_int (e - s + 1)"
  by (simp add: span_vectors_def)

lemma forward_returns_iff:
  "(\<exists>out. forward self token_ids mask' offsets wordpiece_mask type_ids segment_concat_mask = Inr out) \<longleftrightarrow>
   (\<exists>emb. matched_forward (matched self) token_ids wordpiece_mask type_ids segment_concat_mask = Inr emb
      \<and> span_selection_accepts emb offsets)"
proof
  assume "\<exists>out. forward self token_ids mask' offsets wordpiece_mask type_ids segment_concat_mask = Inr out"
  then obtain l where l: "forward_locals self token_ids mask' offsets wordpiece_mask type_ids segment_concat_mask = Inr l"
    by (auto simp: forward_Inr)
  then obtain se sm where "batched_span_select (embeddings l) offsets = Inr (se, sm)"
    by (rule forward_locals_Inr)
  then have "span_selection_accepts (embeddings l) offsets"
    using batched_span_select_returns_iff by blast
  with forward_locals_embeddings[OF l]
  show "\<exists>emb. matched_forward (matched self) token_ids wordpiece_mask type_ids segment_concat_mask = Inr emb
      \<and> span_selection_accepts emb offsets" by blast
next
  assume "\<exists>emb. matched_forward (matched self) token_ids wordpiece_mask type_ids segment_concat_mask = Inr emb
      \<and> span_selection_accepts emb offsets"
  then obtain emb where e: "matched_forward (matched self) token_ids wordpiece_mask type_ids segment_concat_mask = Inr emb"
    and a: "span_selection_accepts emb offsets" by blast
  from a obtain r where "batched_span_select emb offsets = Inr r"
    using batched_span_select_returns_iff by blast
  with e show "\<exists>out. forward self token_ids mask' offsets wordpiece_mask type_ids segment_concat_mask = Inr out"
    by (cases r) (simp add: forward_def forward_locals_def Let_def)
qed

lemma forward_error_origin:
  assumes "forward self token_ids mask' offsets wordpiece_mask type_ids segment_concat_mask = Inl err"
  shows "matched_forward (matched self) token_ids wordpiece_mask type_ids segment_concat_mask = Inl err
       \<or> (\<exists>emb. matched_forward (matched self) token_ids wordpiece_mask type_ids segment_concat_mask = Inr emb
             \<and> batched_span_select emb offsets = Inl err)"
  using assms
  by (auto simp: forward_def forward_locals_def Let_def split: sum.splits prod.splits)

section \<open>The store: the same results, and the frame\<close>

text \<open>
  The computation on the store is the one of the first model: with the inner embedder
  of the first model on the store, it fails with the same error, or leaves the same output
  at the address it returns.
\<close>

lemma forward_st_refines:
  assumes t: "lookup st token_ids = Some (LongT t)"
    and w: "lookup st wordpiece_mask = Some (LongT w)"
    and o: "lookup st offsets = Some (OffsetsT offs)"
  shows "case forward self t m offs w None None of
           Inl e \<Rightarrow> fst (forward_st (matched_call (matched self)) st token_ids mask' offsets
                           wordpiece_mask None None) = Inl e
         | Inr out \<Rightarrow> \<exists>a st'. forward_st (matched_call (matched self)) st token_ids mask' offsets
                           wordpiece_mask None None = (Inr a, st')
                         \<and> lookup st' a = Some (ValT out)"
proof (cases "matched_forward (matched self) t w None None")
  case (Inl e)
  with t w show ?thesis
    by (simp add: forward_def forward_locals_def forward_st_def matched_call_def)
next
  case (Inr emb)
  from o have ol: "offsets < length st" and ov: "st ! offsets = OffsetsT offs"
    by (auto simp: lookup_def split: if_splits)
  have m: "matched_call (matched self) st token_ids wordpiece_mask None None
      = (Inr (length st), st @ [FloatT3 emb])"
    using t w Inr by (simp add: matched_call_def alloc_def)
  show ?thesis
  proof (cases "batched_span_select emb offs")
    case (Inl e)
    with Inr m ol ov show ?thesis
      by (simp add: forward_def forward_locals_def forward_st_def batched_span_select_st_def
          lookup_def nth_append)
  next
    case sel: (Inr x)
    obtain se sm where x: "x = (se, sm)" by (cases x)
    note sel = sel[unfolded x]
    have b: "batched_span_select_st (st @ [FloatT3 emb]) (length st) offsets
        = Inr ((Suc (length st), Suc (Suc (length st))), st @ [FloatT3 emb, FloatT4 se, BoolT3 sm])"
      using sel ol ov by (simp add: batched_span_select_st_def lookup_def nth_append alloc_def)
    show ?thesis
      using Inr sel m b
      by (simp add: forward_def forward_locals_def forward_st_def imul_st_def sum2_st_def
          div_st_def lookup_def nth_append alloc_def Let_def list_update_append)
  qed
qed

lemma preserved_refl: "preserved st st"
  by (simp add: preserved_def)

lemma preserved_length: "preserved st st' \<Longrightarrow> length st \<le> length st'"
proof -
  assume "preserved st st'"
  then have "length (take (length st) st') = length st" by (simp add: preserved_def)
  then show ?thesis by simp
qed

lemma preserved_nth: "preserved st st' \<Longrightarrow> a < length st \<Longrightarrow> st' ! a = st ! a"
proof -
  assume p: "preserved st st'" and a: "a < length st"
  from a have "take (length st) st' ! a = st' ! a" by simp
  with p show ?thesis by (simp add: preserved_def)
qed

lemma preserved_lookup: "preserved st st' \<Longrightarrow> a < length st \<Longrightarrow> lookup st' a = lookup st a"
  using preserved_length[of st st'] preserved_nth[of st st' a] by (simp add: lookup_def)

lemma preserved_trans: "preserved st st1 \<Longrightarrow> preserved st1 st2 \<Longrightarrow> preserved st st2"
proof -
  assume a: "preserved st st1" and b: "preserved st1 st2"
  from a have le: "length st \<le> length st1" by (rule preserved_length)
  have "take (length st) st2 = take (length st) (take (length st1) st2)"
    using le by (simp add: min_def)
  also have "\<dots> = take (length st) st1" using b by (simp add: preserved_def)
  also have "\<dots> = st" using a by (simp add: preserved_def)
  finally show ?thesis by (simp add: preserved_def)
qed

lemma preserved_update: "length st \<le> a \<Longrightarrow> preserved st st' \<Longrightarrow> preserved st (st'[a := t])"
  by (simp add: preserved_def)

lemma batched_span_select_st_frame:
  assumes "batched_span_select_st st target spans = Inr ((a1, a2), st')"
  shows "preserved st st'" and "a1 = length st"
  using assms
  by (auto simp: batched_span_select_st_def alloc_def preserved_def Let_def
           split: option.splits tensor.splits sum.splits prod.splits)

lemma imul_st_frame:
  assumes "imul_st st a m = Inr st'" and "length st0 \<le> a" and "preserved st0 st"
  shows "preserved st0 st'"
  using assms
  by (auto simp: imul_st_def intro: preserved_update split: option.splits tensor.splits)

lemma sum2_st_frame: "sum2_st st a = Inr (r, st') \<Longrightarrow> preserved st st'"
  by (auto simp: sum2_st_def alloc_def preserved_def split: option.splits tensor.splits)

lemma div_st_frame: "div_st st a b = Inr (r, st') \<Longrightarrow> preserved st st'"
  by (auto simp: div_st_def alloc_def preserved_def split: option.splits tensor.splits)

lemma forward_st_frame:
  assumes inner: "matched_embedder_st st token_ids wordpiece_mask type_ids segment_concat_mask = (r, st1)"
    and run: "forward_st matched_embedder_st st token_ids mask' offsets wordpiece_mask type_ids segment_concat_mask = (res, st')"
  shows "preserved st1 st'"
proof (cases r)
  case (Inl e)
  with inner run show ?thesis by (simp add: forward_st_def preserved_refl)
next
  case (Inr emb)
  show ?thesis
  proof (cases "batched_span_select_st st1 emb offsets")
    case (Inl e)
    with inner run Inr show ?thesis by (simp add: forward_st_def preserved_refl)
  next
    case sel: (Inr x)
    obtain a1 a2 st2 where x: "x = ((a1, a2), st2)" by (metis prod.exhaust)
    note sel = sel[unfolded x]
    from batched_span_select_st_frame[OF sel] have p12: "preserved st1 st2" and a1: "a1 = length st1"
      by simp_all
    show ?thesis
    proof (cases "imul_st st2 a1 a2")
      case (Inl e)
      with inner run Inr sel p12 show ?thesis by (simp add: forward_st_def)
    next
      case mul: (Inr st3)
      have p13: "preserved st1 st3"
        by (rule imul_st_frame[OF mul _ p12]) (simp add: a1)
      show ?thesis
      proof (cases "sum2_st st3 a1")
        case (Inl e)
        with inner run Inr sel mul p13 show ?thesis by (simp add: forward_st_def)
      next
        case s1: (Inr y)
        obtain a3 st4 where y: "y = (a3, st4)" by (metis prod.exhaust)
        note s1 = s1[unfolded y]
        have p14: "preserved st1 st4"
          by (rule preserved_trans[OF p13 sum2_st_frame[OF s1]])
        show ?thesis
        proof (cases "sum2_st st4 a2")
          case (Inl e)
          with inner run Inr sel mul s1 p14 show ?thesis by (simp add: forward_st_def)
        next
          case s2: (Inr z)
          obtain a4 st5 where z: "z = (a4, st5)" by (metis prod.exhaust)
          note s2 = s2[unfolded z]
          have p15: "preserved st1 st5"
            by (rule preserved_trans[OF p14 sum2_st_frame[OF s2]])
          show ?thesis
          proof (cases "div_st st5 a3 a4")
            case (Inl e)
            with inner run Inr sel mul s1 s2 p15 show ?thesis by (simp add: forward_st_def)
          next
            case d: (Inr u)
            obtain a5 st6 where u: "u = (a5, st6)" by (metis prod.exhaust)
            note d = d[unfolded u]
            have p16: "preserved st1 st6"
              by (rule preserved_trans[OF p15 div_st_frame[OF d]])
            with inner run Inr sel mul s1 s2 d show ?thesis by (simp add: forward_st_def)
          qed
        qed
      qed
    qed
  qed
qed

text \<open>The equations that evaluate the model on a concrete call.\<close>

lemmas eval_defs = forward_def forward_locals_def lookup_embedder_def masking_embedder_def
  batched_span_select_def tensor_max_def span_widths_def get_range_vector_def
  batched_index_select_def size1_def size2_def mul_mask_def sum2_def mask_sum2_def tensor_div_def
  fdiv_def Let_def eval_nat_numeral has_shape3_def offsets_in_range_def elementwise_mean_def
  span_vectors_def real_wordpieces_def get_output_dim_def span_selection_accepts_def
  forward_st_def matched_call_def batched_span_select_st_def imul_st_def sum2_st_def div_st_def
  alloc_def lookup_def get_output_dim_st_def preserved_def matched_dim_call_def weights_dim_call_def
  zero_dim_embedder_def sum_over_real_count_def

section \<open>The claims\<close>

text \<open>
  C1, as amended. For every batch whose offsets all lie within the wordpieces
  (\<open>0 \<le> start \<le> end < num_wordpieces\<close>, the invariant of the data model; at least one
  token; the inner embedder returning a rectangular tensor of positive embedding size; at
  most \<open>2 ^ 24\<close> wordpieces, up to where the library's conversion of indices to floats
  is exact), \<^verbatim>\<open>forward\<close> returns, and its output at token \<open>j\<close> of row \<open>b\<close> is the
  elementwise arithmetic mean of the inner embedder's vectors at the wordpiece positions
  \<open>start\<close> through \<open>end\<close> inclusive: their sum divided by their number
  \<open>end - start + 1\<close>, whatever \<^verbatim>\<open>wordpiece_mask\<close> holds at these positions. The values
  are those of exact arithmetic.
\<close>

theorem forward_is_span_mean:
  assumes inner: "matched_forward (matched self) token_ids wordpiece_mask type_ids segment_concat_mask = Inr emb"
    and shape: "has_shape3 emb (length offsets) n d"
    and dim: "0 < d"
    and few: "n \<le> 2 ^ 24"
    and ne: "concat offsets \<noteq> []"
    and rng: "offsets_in_range offsets n"
  shows "\<exists>out. forward self token_ids mask' offsets wordpiece_mask type_ids segment_concat_mask = Inr out
           \<and> length out = length offsets
           \<and> (\<forall>b < length offsets. length (out ! b) = length (offsets ! b)
                \<and> (\<forall>j < length (offsets ! b).
                      out ! b ! j = elementwise_mean d
                        (span_vectors (emb ! b) (fst (offsets ! b ! j)) (snd (offsets ! b ! j)))))"
proof -
  have acc: "span_selection_accepts emb offsets"
    by (rule in_range_accepts[OF shape ne rng dim])
  from forward_locals_accepts[OF inner acc]
  obtain l where run: "forward_locals self token_ids mask' offsets wordpiece_mask type_ids segment_concat_mask = Inr l"
    and el: "embeddings l = emb" by blast
  have sh: "has_shape3 (embeddings l) (length offsets) n d" using shape el by simp
  have "forward self token_ids mask' offsets wordpiece_mask type_ids segment_concat_mask = Inr (orig_embeddings l)"
    using run by (simp add: forward_def)
  moreover have "length (orig_embeddings l) = length offsets"
    by (rule forward_locals_lengths(1)[OF run])
  moreover have "\<forall>b < length offsets. length (orig_embeddings l ! b) = length (offsets ! b)
                \<and> (\<forall>j < length (offsets ! b).
                      orig_embeddings l ! b ! j = elementwise_mean d
                        (span_vectors (emb ! b) (fst (offsets ! b ! j)) (snd (offsets ! b ! j))))"
  proof (intro allI impI conjI)
    fix b assume b: "b < length offsets"
    show "length (orig_embeddings l ! b) = length (offsets ! b)"
      by (rule forward_locals_lengths(2)[OF run b])
    fix j assume j: "j < length (offsets ! b)"
    obtain s e where tok: "offsets ! b ! j = (s, e)" by (cases "offsets ! b ! j")
    have "(s, e) \<in> set (concat offsets)"
      using b j tok by (metis nth_mem set_concat UN_I)
    with rng have r: "0 \<le> s" "s \<le> e" by (auto simp: offsets_in_range_def)
    from r have ms: "max 0 s = s" and mw: "max 0 (e - s + 1) = e - s + 1" and nz: "e - s + 1 \<noteq> 0"
      by simp_all
    have "orig_embeddings l ! b ! j =
           map (\<lambda>c. fdiv (\<Sum>i\<leftarrow>[nat (max 0 s)..<nat (e + 1)]. embeddings l ! b ! i ! c)
                          (max 0 (e - max 0 s + 1))) [0..<d]"
      by (rule forward_locals_pooled(3)[OF run sh b j tok])
    also have "\<dots> = map (\<lambda>c. Fin ((\<Sum>i\<leftarrow>[nat s..<nat (e + 1)]. emb ! b ! i ! c)
                                / real_of_int (e - s + 1))) [0..<d]"
      by (simp add: ms mw nz fdiv_def el)
    also have "\<dots> = elementwise_mean d (span_vectors (emb ! b) s e)"
      by (simp add: elementwise_mean_def span_vectors_nonempty[OF r] span_vectors_sum
          real_length_span_vectors[OF r])
    finally show "orig_embeddings l ! b ! j = elementwise_mean d
                        (span_vectors (emb ! b) (fst (offsets ! b ! j)) (snd (offsets ! b ! j)))"
      by (simp add: tok)
  qed
  ultimately show ?thesis by blast
qed

text \<open>
  The scenario of the specification: one row, three wordpieces embedded as \<open>(5, 1)\<close>,
  \<open>(6, 1)\<close>, \<open>(7, 1)\<close>, two tokens with the spans \<open>(0, 1)\<close> and \<open>(2, 2)\<close>.
\<close>

theorem forward_is_span_mean_witness:
  "matched_forward (matched lookup_embedder) [[5, 6, 7]] [[1, 1, 1]] None None
     = Inr [[[5, 1], [6, 1], [7, 1]]]
   \<and> has_shape3 [[[5, 1], [6, 1], [7, 1 :: real]]] (length [[(0 :: int, 1 :: int), (2, 2)]]) 3 2
   \<and> (0 :: nat) < 2
   \<and> (3 :: nat) \<le> 2 ^ 24
   \<and> concat [[(0 :: int, 1 :: int), (2, 2)]] \<noteq> []
   \<and> offsets_in_range [[(0, 1), (2, 2)]] 3
   \<and> (\<exists>out. forward lookup_embedder [[5, 6, 7]] [[1, 1]] [[(0, 1), (2, 2)]] [[1, 1, 1]] None None = Inr out
        \<and> out ! 0 ! 0 = [Fin (11 / 2), Fin 1] \<and> out ! 0 ! 1 = [Fin 7, Fin 1])"
proof -
  have h1: "matched_forward (matched lookup_embedder) [[5, 6, 7]] [[1, 1, 1]] None None
     = Inr [[[5, 1], [6, 1], [7, 1]]]"
    by (simp add: lookup_embedder_def)
  have h2: "has_shape3 [[[5, 1], [6, 1], [7, 1 :: real]]] (length [[(0 :: int, 1 :: int), (2, 2)]]) 3 2"
    by (simp add: has_shape3_def)
  have h3: "concat [[(0 :: int, 1 :: int), (2, 2)]] \<noteq> []" by simp
  have h4: "offsets_in_range [[(0, 1), (2, 2)]] 3" by (simp add: offsets_in_range_def)
  have h5: "(0 :: nat) < 2" by simp
  have h6: "(3 :: nat) \<le> 2 ^ 24" by simp
  let ?O = "[[(0 :: int, 1 :: int), (2, 2)]]"
  let ?E = "[[[5, 1], [6, 1], [7, 1 :: real]]]"
  from forward_is_span_mean[OF h1 h2 h5 h6 h3 h4, of "[[1, 1]]"]
  obtain out where o: "forward lookup_embedder [[5, 6, 7]] [[1, 1]] ?O [[1, 1, 1]] None None = Inr out"
    and m: "\<forall>b < length ?O. length (out ! b) = length (?O ! b)
                \<and> (\<forall>j < length (?O ! b).
                      out ! b ! j = elementwise_mean 2
                        (span_vectors (?E ! b) (fst (?O ! b ! j)) (snd (?O ! b ! j))))"
    by (elim exE conjE)
  from m have m0: "\<forall>j < length (?O ! 0).
                      out ! 0 ! j = elementwise_mean 2
                        (span_vectors (?E ! 0) (fst (?O ! 0 ! j)) (snd (?O ! 0 ! j)))"
    by simp
  from m0[THEN spec, of 0] have "out ! 0 ! 0 = [Fin (11 / 2), Fin 1]"
    by (simp add: elementwise_mean_def span_vectors_def eval_nat_numeral)
  moreover from m0[THEN spec, of 1] have "out ! 0 ! 1 = [Fin 7, Fin 1]"
    by (simp add: elementwise_mean_def span_vectors_def eval_nat_numeral)
  ultimately show ?thesis using o h1 h2 h3 h4 h5 h6 by (intro conjI exI[of _ out])
qed

text \<open>
  The claim as stated fails at the span \<open>(0, 1)\<close> with \<^verbatim>\<open>wordpiece_mask\<close> \<open>[1, 0]\<close>: the span
  holds a real wordpiece (position 0), \<^verbatim>\<open>forward\<close> returns \<open>(11 / 2, 1)\<close>, the sum
  \<open>(11, 2)\<close> divided by the two positions of the span, and the sum divided by the count
  of real wordpieces (one) is \<open>(11, 2)\<close>.
\<close>

theorem divisor_is_span_width_counterexample:
  "real_wordpieces [1, 0] 0 1 = [0]
   \<and> forward lookup_embedder [[5, 6]] [[1]] [[(0, 1)]] [[1, 0]] None None
       = Inr [[[Fin (11 / 2), Fin 1]]]
   \<and> sum_over_real_count 2 [[5, 1], [6, 1]] [1, 0] 0 1 = [Fin 11, Fin 2]"
  by (simp add: eval_defs)

text \<open>
  C2, as amended. The span mask is derived from the span bounds alone: position \<open>k\<close> of a
  token's padded span is real exactly when \<open>k \<le> end - start\<close> and \<open>end - k \<ge> 0\<close>. The sum
  adds the inner embedder's vector of every wordpiece position from \<open>max 0 start\<close> through
  \<open>end\<close>, and the divisor counts each of these positions, whatever \<^verbatim>\<open>wordpiece_mask\<close>
  holds there; only the padding of the span up to the widest span of the batch (and
  positions below 0) contributes to neither.
\<close>

theorem span_mask_from_bounds_only:
  assumes run: "forward_locals self token_ids mask' offsets wordpiece_mask type_ids segment_concat_mask = Inr l"
    and shape: "has_shape3 (embeddings l) bs n d"
    and b: "b < length offsets" and j: "j < length (offsets ! b)"
    and tok: "offsets ! b ! j = (s, e)"
  shows "(\<forall>k < length (span_mask l ! b ! j).
            span_mask l ! b ! j ! k = (int k \<le> e - s \<and> 0 \<le> e - int k))
       \<and> span_embeddings_sum l ! b ! j =
            map (\<lambda>c. \<Sum>v\<leftarrow>span_vectors (embeddings l ! b) (max 0 s) e. v ! c) [0..<d]
       \<and> span_embeddings_len l ! b ! j = int (length (span_vectors (embeddings l ! b) (max 0 s) e))"
proof (intro conjI)
  from run b j tok obtain mw where
    sm: "span_mask l ! b ! j = map (\<lambda>k. int k \<le> e - s \<and> e - int k \<ge> 0) [0..<mw]"
    by (rule forward_locals_token)
  show "\<forall>k < length (span_mask l ! b ! j).
            span_mask l ! b ! j ! k = (int k \<le> e - s \<and> 0 \<le> e - int k)"
    by (simp add: sm)
  show "span_embeddings_sum l ! b ! j =
            map (\<lambda>c. \<Sum>v\<leftarrow>span_vectors (embeddings l ! b) (max 0 s) e. v ! c) [0..<d]"
    using forward_locals_pooled(1)[OF run shape b j tok] by (simp add: span_vectors_sum)
  show "span_embeddings_len l ! b ! j = int (length (span_vectors (embeddings l ! b) (max 0 s) e))"
    using forward_locals_len[OF run b j tok] by (simp only: length_span_vectors_clipped)
qed

theorem span_mask_from_bounds_only_witness:
  "forward_locals masking_embedder [[5, 6, 7]] [[1, 1]] [[(0, 1), (2, 2)]] [[1, 0, 1]] None None
     = Inr \<lparr>embeddings = [[[5, 1], [0, 0], [7, 1]]],
        span_embeddings = [[[[0, 0], [5, 1]], [[7, 1], [0, 0]]]],
        span_mask = [[[True, True], [True, False]]],
        span_embeddings_sum = [[[5, 1], [7, 1]]],
        span_embeddings_len = [[2, 1]],
        orig_embeddings = [[[Fin (5 / 2), Fin (1 / 2)], [Fin 7, Fin 1]]]\<rparr>
   \<and> has_shape3 [[[5, 1], [0, 0], [7, 1 :: real]]] 1 3 2
   \<and> (0 :: nat) < length [[(0 :: int, 1 :: int), (2, 2)]]
   \<and> (0 :: nat) < length ([[(0 :: int, 1 :: int), (2, 2)]] ! 0)
   \<and> [[(0 :: int, 1 :: int), (2, 2)]] ! 0 ! 0 = (0, 1)
   \<and> [[[True, True], [True, False]]] ! 0 ! 0 ! 1 = (int 1 \<le> 1 - 0 \<and> 0 \<le> 1 - int 1)
   \<and> [[[5, 1], [7, 1]]] ! 0 ! 0 =
        map (\<lambda>c. \<Sum>v\<leftarrow>span_vectors ([[[5, 1], [0, 0], [7, 1]]] ! 0) (max 0 0) 1. v ! c) [0..<2]
   \<and> [[2, 1]] ! 0 ! 0 = int (length (span_vectors ([[[5, 1], [0, 0], [7, 1 :: real]]] ! 0) (max 0 0) 1))"
proof -
  let ?l = "\<lparr>embeddings = [[[5, 1], [0, 0], [7, 1]]],
        span_embeddings = [[[[0, 0], [5, 1]], [[7, 1], [0, 0]]]],
        span_mask = [[[True, True], [True, False]]],
        span_embeddings_sum = [[[5, 1], [7, 1]]],
        span_embeddings_len = [[2, 1]],
        orig_embeddings = [[[Fin (5 / 2), Fin (1 / 2)], [Fin 7, Fin 1]]]\<rparr>"
  have h1: "forward_locals masking_embedder [[5, 6, 7]] [[1, 1]] [[(0, 1), (2, 2)]] [[1, 0, 1]] None None
     = Inr ?l"
    by (simp add: eval_defs)
  have h2: "has_shape3 (embeddings ?l) 1 3 2" by (simp add: has_shape3_def)
  have h3: "(0 :: nat) < length [[(0 :: int, 1 :: int), (2, 2)]]" by simp
  have h4: "(0 :: nat) < length ([[(0 :: int, 1 :: int), (2, 2)]] ! 0)" by simp
  have h5: "[[(0 :: int, 1 :: int), (2, 2)]] ! 0 ! 0 = (0, 1)" by simp
  note T = span_mask_from_bounds_only[OF h1 h2 h3 h4 h5]
  from T have a: "\<forall>k < length (span_mask ?l ! 0 ! 0).
            span_mask ?l ! 0 ! 0 ! k = (int k \<le> 1 - 0 \<and> 0 \<le> 1 - int k)"
    by (rule conjunct1)
  from a[THEN spec, of 1]
  have c1: "[[[True, True], [True, False]]] ! 0 ! 0 ! 1 = (int 1 \<le> 1 - 0 \<and> 0 \<le> 1 - int 1)"
    by simp
  from T have c2: "[[[5, 1], [7, 1]]] ! 0 ! 0 =
        map (\<lambda>c. \<Sum>v\<leftarrow>span_vectors ([[[5, 1], [0, 0], [7, 1]]] ! 0) (max 0 0) 1. v ! c) [0..<2]"
    by simp
  from T have c3: "[[2, 1]] ! 0 ! 0 = int (length (span_vectors ([[[5, 1], [0, 0], [7, 1 :: real]]] ! 0) (max 0 0) 1))"
    by simp
  from h2 have h2': "has_shape3 [[[5, 1], [0, 0], [7, 1 :: real]]] 1 3 2" by simp
  from h1 h2' h3 h4 h5 c1 c2 c3 show ?thesis by (intro conjI)
qed

text \<open>
  The claim as stated fails at the span \<open>(0, 1)\<close> with \<^verbatim>\<open>wordpiece_mask\<close> \<open>[1, 0]\<close>: the
  only real wordpiece of the span is position 0, yet the span mask is true at both
  positions and the divisor is 2. With the inner embedder that gives a masked wordpiece
  the zero vector, the output is \<open>(5 / 2, 1 / 2)\<close>, not the vector \<open>(5, 1)\<close> of position 0;
  with the one that ignores the mask, the sum \<open>(11, 2)\<close> holds the vector of position 1.
\<close>

theorem masked_wordpiece_counted_counterexample:
  "real_wordpieces [1, 0] 0 1 = [0]
   \<and> forward_locals masking_embedder [[5, 6]] [[1]] [[(0, 1)]] [[1, 0]] None None
     = Inr \<lparr>embeddings = [[[5, 1], [0, 0]]],
        span_embeddings = [[[[0, 0], [5, 1]]]],
        span_mask = [[[True, True]]],
        span_embeddings_sum = [[[5, 1]]],
        span_embeddings_len = [[2]],
        orig_embeddings = [[[Fin (5 / 2), Fin (1 / 2)]]]\<rparr>
   \<and> forward_locals lookup_embedder [[5, 6]] [[1]] [[(0, 1)]] [[1, 0]] None None
     = Inr \<lparr>embeddings = [[[5, 1], [6, 1]]],
        span_embeddings = [[[[6, 1], [5, 1]]]],
        span_mask = [[[True, True]]],
        span_embeddings_sum = [[[11, 2]]],
        span_embeddings_len = [[2]],
        orig_embeddings = [[[Fin (11 / 2), Fin 1]]]\<rparr>"
  by (simp add: eval_defs)

text \<open>
  C3. When the inner embedder returns a tensor of shape
  \<open>(batch_size, num_wordpieces, get_output_dim)\<close> and \<^verbatim>\<open>offsets\<close> has \<open>batch_size\<close> rows
  of \<open>num_orig_tokens\<close> spans each, every tensor \<^verbatim>\<open>forward\<close> returns has the shape
  \<open>(batch_size, num_orig_tokens, get_output_dim)\<close>; and \<^verbatim>\<open>forward\<close> does return when there
  is a token, the offsets lie within the wordpieces and the embedding size is positive
  (the library raises on an embedding size of 0).
\<close>

theorem forward_output_shape:
  assumes inner: "matched_forward (matched self) token_ids wordpiece_mask type_ids segment_concat_mask = Inr emb"
    and shape: "has_shape3 emb batch_size num_wordpieces (get_output_dim self)"
    and rect: "map length offsets = replicate batch_size num_orig_tokens"
  shows "(\<forall>out. forward self token_ids mask' offsets wordpiece_mask type_ids segment_concat_mask = Inr out
            \<longrightarrow> has_shape3 out batch_size num_orig_tokens (get_output_dim self))
       \<and> (concat offsets \<noteq> [] \<and> offsets_in_range offsets num_wordpieces \<and> 0 < get_output_dim self
            \<longrightarrow> (\<exists>out. forward self token_ids mask' offsets wordpiece_mask type_ids segment_concat_mask = Inr out))"
proof (intro conjI allI impI)
  from rect have "length (map length offsets) = batch_size" by simp
  then have offs1: "length offsets = batch_size" by simp
  have offs2: "length (offsets ! b) = num_orig_tokens" if "b < length offsets" for b
  proof -
    from that have "length (offsets ! b) = map length offsets ! b" by simp
    also have "\<dots> = num_orig_tokens" using that offs1 by (simp add: rect)
    finally show ?thesis .
  qed
  note offs = offs1 offs2
  fix out
  assume run: "forward self token_ids mask' offsets wordpiece_mask type_ids segment_concat_mask = Inr out"
  then obtain l where l: "forward_locals self token_ids mask' offsets wordpiece_mask type_ids segment_concat_mask = Inr l"
    and out: "orig_embeddings l = out" by (auto simp: forward_Inr)
  from forward_locals_embeddings[OF l] inner have el: "embeddings l = emb" by simp
  have sh: "has_shape3 (embeddings l) batch_size num_wordpieces (get_output_dim self)"
    using shape el by simp
  have len: "length out = batch_size"
    using forward_locals_lengths(1)[OF l] out offs(1) by simp
  have rows: "length row = num_orig_tokens \<and> (\<forall>v \<in> set row. length v = get_output_dim self)"
    if "row \<in> set out" for row
  proof -
    from that obtain b where b: "b < length out" and row: "row = out ! b"
      by (auto simp: in_set_conv_nth)
    from b len offs(1) have bo: "b < length offsets" by simp
    have lr: "length row = length (offsets ! b)"
      using forward_locals_lengths(2)[OF l bo] out row by simp
    have "length (offsets ! b) = num_orig_tokens" using offs(2) bo by blast
    with lr have 1: "length row = num_orig_tokens" by simp
    have 2: "length v = get_output_dim self" if "v \<in> set row" for v
    proof -
      from that obtain j where j: "j < length row" and v: "v = row ! j"
        by (auto simp: in_set_conv_nth)
      from j lr have jo: "j < length (offsets ! b)" by simp
      obtain s e where tok: "offsets ! b ! j = (s, e)" by (cases "offsets ! b ! j")
      from forward_locals_pooled(3)[OF l sh bo jo tok]
      show ?thesis by (simp add: v row out[symmetric])
    qed
    from 1 2 show ?thesis by blast
  qed
  from len rows show "has_shape3 out batch_size num_orig_tokens (get_output_dim self)"
    unfolding has_shape3_def by blast
next
  assume a: "concat offsets \<noteq> [] \<and> offsets_in_range offsets num_wordpieces \<and> 0 < get_output_dim self"
  from rect have "length (map length offsets) = batch_size" by simp
  then have "length offsets = batch_size" by simp
  with shape have sh: "has_shape3 emb (length offsets) num_wordpieces (get_output_dim self)" by simp
  from a have ne: "concat offsets \<noteq> []" and rg: "offsets_in_range offsets num_wordpieces"
    and dim: "0 < get_output_dim self"
    by blast+
  have "span_selection_accepts emb offsets"
    by (rule in_range_accepts[OF sh ne rg dim])
  with inner show "\<exists>out. forward self token_ids mask' offsets wordpiece_mask type_ids segment_concat_mask = Inr out"
    using forward_returns_iff by blast
qed

theorem forward_output_shape_witness:
  "matched_forward (matched lookup_embedder) [[5, 6, 7]] [[1, 1, 1]] None None
     = Inr [[[5, 1], [6, 1], [7, 1]]]
   \<and> has_shape3 [[[5, 1], [6, 1], [7, 1 :: real]]] 1 3 (get_output_dim lookup_embedder)
   \<and> map length [[(0 :: int, 1 :: int), (2, 2)]] = replicate 1 2
   \<and> concat [[(0 :: int, 1 :: int), (2, 2)]] \<noteq> []
   \<and> offsets_in_range [[(0, 1), (2, 2)]] 3
   \<and> 0 < get_output_dim lookup_embedder
   \<and> forward lookup_embedder [[5, 6, 7]] [[1, 1]] [[(0, 1), (2, 2)]] [[1, 1, 1]] None None
       = Inr [[[Fin (11 / 2), Fin 1], [Fin 7, Fin 1]]]
   \<and> has_shape3 [[[Fin (11 / 2), Fin 1], [Fin 7, Fin 1]]] 1 2 (get_output_dim lookup_embedder)
   \<and> (\<exists>out. forward lookup_embedder [[5, 6, 7]] [[1, 1]] [[(0, 1), (2, 2)]] [[1, 1, 1]] None None = Inr out)"
proof -
  have h1: "matched_forward (matched lookup_embedder) [[5, 6, 7]] [[1, 1, 1]] None None
     = Inr [[[5, 1], [6, 1], [7, 1]]]"
    by (simp add: lookup_embedder_def)
  have h2: "has_shape3 [[[5, 1], [6, 1], [7, 1 :: real]]] 1 3 (get_output_dim lookup_embedder)"
    by (simp add: has_shape3_def get_output_dim_def lookup_embedder_def)
  have h3: "map length [[(0 :: int, 1 :: int), (2, 2)]] = replicate 1 2"
    by (simp add: eval_nat_numeral)
  have h4: "concat [[(0 :: int, 1 :: int), (2, 2)]] \<noteq> []" by simp
  have h5: "offsets_in_range [[(0, 1), (2, 2)]] 3" by (simp add: offsets_in_range_def)
  have h6: "0 < get_output_dim lookup_embedder"
    by (simp add: get_output_dim_def lookup_embedder_def)
  have r: "forward lookup_embedder [[5, 6, 7]] [[1, 1]] [[(0, 1), (2, 2)]] [[1, 1, 1]] None None
       = Inr [[[Fin (11 / 2), Fin 1], [Fin 7, Fin 1]]]"
    by (simp add: eval_defs)
  note T = forward_output_shape[OF h1 h2 h3, of "[[1, 1]]"]
  from T r have c1: "has_shape3 [[[Fin (11 / 2), Fin 1], [Fin 7, Fin 1]]] 1 2 (get_output_dim lookup_embedder)"
    by blast
  from T h4 h5 h6 have c2: "\<exists>out. forward lookup_embedder [[5, 6, 7]] [[1, 1]] [[(0, 1), (2, 2)]] [[1, 1, 1]] None None = Inr out"
    by blast
  from h1 h2 h3 h4 h5 h6 r c1 c2 show ?thesis by (intro conjI)
qed

text \<open>
  C4, as amended. When the inner embedder and the span selection have returned, a token
  whose offset range is empty (\<open>end < max 0 start\<close>: the range holds no wordpiece
  position) has the divisor 0: the final division divides by zero, no error is raised
  (\<^verbatim>\<open>forward\<close> returns), and every component of the output at that slot is non-finite.
\<close>

theorem empty_span_divides_by_zero:
  assumes inner: "matched_forward (matched self) token_ids wordpiece_mask type_ids segment_concat_mask = Inr emb"
    and sel: "batched_span_select emb offsets = Inr (selected, selected_mask)"
    and shape: "has_shape3 emb bs n d"
    and b: "b < length offsets" and j: "j < length (offsets ! b)"
    and tok: "offsets ! b ! j = (s, e)"
    and empty: "e < max 0 s"
  shows "\<exists>l. forward_locals self token_ids mask' offsets wordpiece_mask type_ids segment_concat_mask = Inr l
           \<and> forward self token_ids mask' offsets wordpiece_mask type_ids segment_concat_mask
               = Inr (orig_embeddings l)
           \<and> span_embeddings_len l ! b ! j = 0
           \<and> orig_embeddings l ! b ! j = replicate d NonFinite"
proof -
  from inner sel obtain l
    where run: "forward_locals self token_ids mask' offsets wordpiece_mask type_ids segment_concat_mask = Inr l"
      and el: "embeddings l = emb"
    by (simp add: forward_locals_def Let_def)
  from shape el have sh: "has_shape3 (embeddings l) bs n d" by simp
  note len = forward_locals_len[OF run b j tok]
  note og = forward_locals_pooled(3)[OF run sh b j tok]
  from empty have z: "max 0 (e - max 0 s + 1) = 0" by (auto simp: max_def)
  have "forward self token_ids mask' offsets wordpiece_mask type_ids segment_concat_mask
          = Inr (orig_embeddings l)"
    using run by (simp add: forward_def)
  moreover have "span_embeddings_len l ! b ! j = 0" unfolding len by (rule z)
  moreover have "orig_embeddings l ! b ! j = replicate d NonFinite"
    unfolding og z by (simp add: fdiv_def map_replicate_const)
  ultimately show ?thesis using run by blast
qed

text \<open>
  One row of three wordpieces and two tokens, with the spans \<open>(0, 1)\<close> and \<open>(1, 0)\<close>: the
  second range is empty, the call returns, and the output of the second token is
  non-finite.
\<close>

theorem empty_span_divides_by_zero_witness:
  "matched_forward (matched lookup_embedder) [[5, 6, 7]] [[1, 1, 1]] None None
     = Inr [[[5, 1], [6, 1], [7, 1]]]
   \<and> batched_span_select [[[5, 1], [6, 1], [7, 1]]] [[(0, 1), (1, 0)]]
       = Inr ([[[[6, 1], [5, 1]], [[5, 1], [5, 1]]]], [[[True, True], [False, False]]])
   \<and> has_shape3 [[[5, 1], [6, 1], [7, 1 :: real]]] 1 3 2
   \<and> (0 :: nat) < length [[(0 :: int, 1 :: int), (1, 0)]]
   \<and> (1 :: nat) < length ([[(0 :: int, 1 :: int), (1, 0)]] ! 0)
   \<and> [[(0 :: int, 1 :: int), (1, 0)]] ! 0 ! 1 = (1, 0)
   \<and> (0 :: int) < max 0 1
   \<and> (\<exists>l :: locals. forward lookup_embedder [[5, 6, 7]] [[1, 1]] [[(0, 1), (1, 0)]] [[1, 1, 1]] None None
              = Inr (orig_embeddings l)
          \<and> span_embeddings_len l ! 0 ! 1 = 0
          \<and> orig_embeddings l ! 0 ! 1 = [NonFinite, NonFinite])"
proof -
  let ?E = "[[[5, 1], [6, 1], [7, 1 :: real]]]"
  let ?O = "[[(0 :: int, 1 :: int), (1, 0)]]"
  have h1: "matched_forward (matched lookup_embedder) [[5, 6, 7]] [[1, 1, 1]] None None = Inr ?E"
    by (simp add: lookup_embedder_def)
  have h2: "batched_span_select ?E ?O
       = Inr ([[[[6, 1], [5, 1]], [[5, 1], [5, 1]]]], [[[True, True], [False, False]]])"
    by (simp add: eval_defs)
  have h3: "has_shape3 ?E 1 3 2" by (simp add: has_shape3_def)
  have h4: "(0 :: nat) < length ?O" by simp
  have h5: "(1 :: nat) < length (?O ! 0)" by simp
  have h6: "?O ! 0 ! 1 = (1, 0)" by simp
  have h7: "(0 :: int) < max 0 1" by simp
  from empty_span_divides_by_zero[OF h1 h2 h3 h4 h5 h6 h7, of "[[1, 1]]"]
  obtain l where r: "forward_locals lookup_embedder [[5, 6, 7]] [[1, 1]] ?O [[1, 1, 1]] None None = Inr l"
    and f: "forward lookup_embedder [[5, 6, 7]] [[1, 1]] ?O [[1, 1, 1]] None None
              = Inr (orig_embeddings l)"
    and c1: "span_embeddings_len l ! 0 ! 1 = 0"
    and c2: "orig_embeddings l ! 0 ! 1 = replicate 2 NonFinite"
    by (elim exE conjE)
  from c2 have c3: "orig_embeddings l ! 0 ! 1 = [NonFinite, NonFinite]"
    by (simp add: eval_nat_numeral)
  from f c1 c3 have "\<exists>l :: locals. forward lookup_embedder [[5, 6, 7]] [[1, 1]] ?O [[1, 1, 1]] None None
              = Inr (orig_embeddings l)
          \<and> span_embeddings_len l ! 0 ! 1 = 0
          \<and> orig_embeddings l ! 0 ! 1 = [NonFinite, NonFinite]"
    by blast
  with h1 h2 h3 h4 h5 h6 h7 show ?thesis by (intro conjI)
qed

text \<open>
  The claim as stated fails at the span \<open>(0, 0)\<close> with \<^verbatim>\<open>wordpiece_mask\<close> \<open>[0]\<close>: the range
  holds no real wordpiece, yet the divisor is 1, not 0, and the output is the vector
  of position 0 divided by 1, with either inner embedder.
\<close>

theorem all_masked_span_is_finite_counterexample:
  "real_wordpieces [0] 0 0 = []
   \<and> forward_locals lookup_embedder [[5]] [[1]] [[(0, 0)]] [[0]] None None
     = Inr \<lparr>embeddings = [[[5, 1]]], span_embeddings = [[[[5, 1]]]],
        span_mask = [[[True]]], span_embeddings_sum = [[[5, 1]]],
        span_embeddings_len = [[1]], orig_embeddings = [[[Fin 5, Fin 1]]]\<rparr>
   \<and> forward_locals masking_embedder [[5]] [[1]] [[(0, 0)]] [[0]] None None
     = Inr \<lparr>embeddings = [[[0, 0]]], span_embeddings = [[[[0, 0]]]],
        span_mask = [[[True]]], span_embeddings_sum = [[[0, 0]]],
        span_embeddings_len = [[1]], orig_embeddings = [[[Fin 0, Fin 0]]]\<rparr>"
  by (simp add: eval_defs)

text \<open>
  C5. Two calls of \<^verbatim>\<open>forward\<close> on the same embedder whose arguments differ in
  \<^verbatim>\<open>mask\<close> only return the same result: the pooling never reads \<^verbatim>\<open>mask\<close>.
\<close>

theorem forward_independent_of_mask:
  "forward self token_ids mask1 offsets wordpiece_mask type_ids segment_concat_mask =
   forward self token_ids mask2 offsets wordpiece_mask type_ids segment_concat_mask"
  by (simp add: forward_def forward_locals_def)




text \<open>
  C7. In a call that returns, a token whose span is the single wordpiece \<open>s\<close>
  (\<open>start = end = s\<close>, \<open>0 \<le> s\<close>; that \<open>s\<close> is below the number of wordpieces follows from
  the call returning) gets the inner embedder's vector at \<open>s\<close>, unchanged.
\<close>

theorem forward_single_wordpiece:
  assumes inner: "matched_forward (matched self) token_ids wordpiece_mask type_ids segment_concat_mask = Inr emb"
    and shape: "has_shape3 emb bs n d"
    and run: "forward self token_ids mask' offsets wordpiece_mask type_ids segment_concat_mask = Inr out"
    and b: "b < length offsets" and j: "j < length (offsets ! b)"
    and tok: "offsets ! b ! j = (s, s)" and s: "0 \<le> s"
  shows "out ! b ! j = map Fin (emb ! b ! nat s)"
proof -
  from run obtain l where l: "forward_locals self token_ids mask' offsets wordpiece_mask type_ids segment_concat_mask = Inr l"
    and out: "orig_embeddings l = out" by (auto simp: forward_Inr)
  from forward_locals_embeddings[OF l] inner have el: "embeddings l = emb" by simp
  have sh: "has_shape3 (embeddings l) bs n d" using shape el by simp
  have mem: "(s, s) \<in> set (concat offsets)"
    using b j tok by (metis nth_mem set_concat UN_I)
  have bl: "b < length emb" using forward_locals_Inr_conditions(4)[OF l] b el by simp
  note S = has_shape3_nth[OF shape bl]
  have "s < int n" using forward_locals_Inr_conditions(3)[OF l mem] el S(2) by simp
  then have ld: "length (emb ! b ! nat s) = d" using s by (intro S(3)) simp
  have ms: "max 0 s = s" using s by simp
  have rg: "[nat s..<nat (s + 1)] = [nat s]"
    using s by (simp add: nat_add_distrib)
  have "out ! b ! j = map (\<lambda>c. fdiv (\<Sum>i\<leftarrow>[nat (max 0 s)..<nat (s + 1)]. emb ! b ! i ! c)
                          (max 0 (s - max 0 s + 1))) [0..<d]"
    using forward_locals_pooled(3)[OF l sh b j tok] by (simp add: out el)
  also have "\<dots> = map (\<lambda>c. Fin (emb ! b ! nat s ! c)) [0..<d]"
    by (simp add: ms rg fdiv_def)
  also have "\<dots> = map Fin (emb ! b ! nat s)"
    by (rule map_nth_fun[OF ld])
  finally show ?thesis .
qed

theorem forward_single_wordpiece_witness:
  "matched_forward (matched lookup_embedder) [[5, 6, 7]] [[1, 1, 1]] None None
     = Inr [[[5, 1], [6, 1], [7, 1]]]
   \<and> has_shape3 [[[5, 1], [6, 1], [7, 1 :: real]]] 1 3 2
   \<and> forward lookup_embedder [[5, 6, 7]] [[1, 1]] [[(0, 1), (2, 2)]] [[1, 1, 1]] None None
       = Inr [[[Fin (11 / 2), Fin 1], [Fin 7, Fin 1]]]
   \<and> (0 :: nat) < length [[(0 :: int, 1 :: int), (2, 2)]]
   \<and> (1 :: nat) < length ([[(0 :: int, 1 :: int), (2, 2)]] ! 0)
   \<and> [[(0 :: int, 1 :: int), (2, 2)]] ! 0 ! 1 = (2, 2) \<and> (0 :: int) \<le> 2
   \<and> [[[Fin (11 / 2), Fin 1], [Fin 7, Fin 1]]] ! 0 ! 1 = map Fin ([[[5, 1], [6, 1], [7, 1]]] ! 0 ! nat 2)"
proof -
  have h1: "matched_forward (matched lookup_embedder) [[5, 6, 7]] [[1, 1, 1]] None None
     = Inr [[[5, 1], [6, 1], [7, 1]]]"
    by (simp add: lookup_embedder_def)
  have h2: "has_shape3 [[[5, 1], [6, 1], [7, 1 :: real]]] 1 3 2"
    by (simp add: has_shape3_def)
  have h3: "forward lookup_embedder [[5, 6, 7]] [[1, 1]] [[(0, 1), (2, 2)]] [[1, 1, 1]] None None
       = Inr [[[Fin (11 / 2), Fin 1], [Fin 7, Fin 1]]]"
    by (simp add: eval_defs)
  have h4: "(0 :: nat) < length [[(0 :: int, 1 :: int), (2, 2)]]" by simp
  have h5: "(1 :: nat) < length ([[(0 :: int, 1 :: int), (2, 2)]] ! 0)" by simp
  have h6: "[[(0 :: int, 1 :: int), (2, 2)]] ! 0 ! 1 = (2, 2)" by simp
  have h7: "(0 :: int) \<le> 2" by simp
  from forward_single_wordpiece[OF h1 h2 h3 h4 h5 h6 h7] h1 h2 h3 h4 h5 h6 h7
  show ?thesis by (intro conjI)
qed




text \<open>
  C9. For a token with \<open>0 \<le> start \<le> end\<close> the divisor \<^verbatim>\<open>span_embeddings_len\<close> is the span
  width \<open>end - start + 1\<close>; and any other call on the same \<^verbatim>\<open>offsets\<close> that returns,
  whatever its \<^verbatim>\<open>wordpiece_mask\<close> (and its other arguments), has the same span mask
  and the same divisors: they are determined by \<^verbatim>\<open>offsets\<close> alone.
\<close>

theorem span_len_is_span_width:
  assumes run: "forward_locals self token_ids mask' offsets wordpiece_mask type_ids segment_concat_mask = Inr l"
    and b: "b < length offsets" and j: "j < length (offsets ! b)"
    and tok: "offsets ! b ! j = (s, e)" and s: "0 \<le> s" and e: "s \<le> e"
  shows "span_embeddings_len l ! b ! j = e - s + 1
       \<and> (\<forall>self2 token_ids2 mask2 wordpiece_mask2 type_ids2 segment_concat_mask2 l2.
            forward_locals self2 token_ids2 mask2 offsets wordpiece_mask2 type_ids2 segment_concat_mask2 = Inr l2
            \<longrightarrow> span_mask l2 = span_mask l \<and> span_embeddings_len l2 = span_embeddings_len l)"
proof (intro conjI allI impI)
  show "span_embeddings_len l ! b ! j = e - s + 1"
    using forward_locals_len[OF run b j tok] s e by (simp add: max_def)
next
  fix self2 token_ids2 mask2 wordpiece_mask2 type_ids2 segment_concat_mask2 l2
  assume r2: "forward_locals self2 token_ids2 mask2 offsets wordpiece_mask2 type_ids2 segment_concat_mask2 = Inr l2"
  show "span_mask l2 = span_mask l" by (rule forward_locals_mask_determined(1)[OF run r2])
  show "span_embeddings_len l2 = span_embeddings_len l" by (rule forward_locals_mask_determined(2)[OF run r2])
qed

theorem span_len_is_span_width_witness:
  "forward_locals lookup_embedder [[5, 6, 7]] [[1, 1]] [[(0, 1), (2, 2)]] [[1, 1, 1]] None None
     = Inr \<lparr>embeddings = [[[5, 1], [6, 1], [7, 1]]],
        span_embeddings = [[[[6, 1], [5, 1]], [[7, 1], [0, 0]]]],
        span_mask = [[[True, True], [True, False]]],
        span_embeddings_sum = [[[11, 2], [7, 1]]],
        span_embeddings_len = [[2, 1]],
        orig_embeddings = [[[Fin (11 / 2), Fin 1], [Fin 7, Fin 1]]]\<rparr>
   \<and> (0 :: nat) < length [[(0 :: int, 1 :: int), (2, 2)]]
   \<and> (0 :: nat) < length ([[(0 :: int, 1 :: int), (2, 2)]] ! 0)
   \<and> [[(0 :: int, 1 :: int), (2, 2)]] ! 0 ! 0 = (0, 1) \<and> (0 :: int) \<le> 0 \<and> (0 :: int) \<le> 1
   \<and> [[2, 1]] ! 0 ! 0 = (1 :: int) - 0 + 1
   \<and> forward_locals masking_embedder [[5, 6, 7]] [[1, 1]] [[(0, 1), (2, 2)]] [[1, 0, 1]] None None
     = Inr \<lparr>embeddings = [[[5, 1], [0, 0], [7, 1]]],
        span_embeddings = [[[[0, 0], [5, 1]], [[7, 1], [0, 0]]]],
        span_mask = [[[True, True], [True, False]]],
        span_embeddings_sum = [[[5, 1], [7, 1]]],
        span_embeddings_len = [[2, 1]],
        orig_embeddings = [[[Fin (5 / 2), Fin (1 / 2)], [Fin 7, Fin 1]]]\<rparr>"
proof -
  let ?l = "\<lparr>embeddings = [[[5, 1], [6, 1], [7, 1]]],
        span_embeddings = [[[[6, 1], [5, 1]], [[7, 1], [0, 0]]]],
        span_mask = [[[True, True], [True, False]]],
        span_embeddings_sum = [[[11, 2], [7, 1]]],
        span_embeddings_len = [[2, 1]],
        orig_embeddings = [[[Fin (11 / 2), Fin 1], [Fin 7, Fin 1]]]\<rparr>"
  have h1: "forward_locals lookup_embedder [[5, 6, 7]] [[1, 1]] [[(0, 1), (2, 2)]] [[1, 1, 1]] None None
     = Inr ?l"
    by (simp add: eval_defs)
  have h2: "(0 :: nat) < length [[(0 :: int, 1 :: int), (2, 2)]]" by simp
  have h3: "(0 :: nat) < length ([[(0 :: int, 1 :: int), (2, 2)]] ! 0)" by simp
  have h4: "[[(0 :: int, 1 :: int), (2, 2)]] ! 0 ! 0 = (0, 1)" by simp
  have h5: "(0 :: int) \<le> 0" by simp
  have h6: "(0 :: int) \<le> 1" by simp
  have r2: "forward_locals masking_embedder [[5, 6, 7]] [[1, 1]] [[(0, 1), (2, 2)]] [[1, 0, 1]] None None
     = Inr \<lparr>embeddings = [[[5, 1], [0, 0], [7, 1]]],
        span_embeddings = [[[[0, 0], [5, 1]], [[7, 1], [0, 0]]]],
        span_mask = [[[True, True], [True, False]]],
        span_embeddings_sum = [[[5, 1], [7, 1]]],
        span_embeddings_len = [[2, 1]],
        orig_embeddings = [[[Fin (5 / 2), Fin (1 / 2)], [Fin 7, Fin 1]]]\<rparr>"
    by (simp add: eval_defs)
  from span_len_is_span_width[OF h1 h2 h3 h4 h5 h6]
  have "span_embeddings_len ?l ! 0 ! 0 = 1 - 0 + 1" by (rule conjunct1)
  then have "[[2, 1]] ! 0 ! 0 = (1 :: int) - 0 + 1" by simp
  with h1 h2 h3 h4 h5 h6 r2 show ?thesis by (intro conjI)
qed

text \<open>
  C10. A call of \<^verbatim>\<open>forward\<close>, returning or failing, leaves every tensor that existed
  before the call with the value it had (the input tensors \<^verbatim>\<open>token_ids\<close>, \<^verbatim>\<open>mask\<close>,
  \<^verbatim>\<open>offsets\<close>, \<^verbatim>\<open>wordpiece_mask\<close>, \<^verbatim>\<open>type_ids\<close> and \<^verbatim>\<open>segment_concat_mask\<close> among
  them), provided the inner embedder does so. The tensors that exist when the inner
  embedder has returned, its result included, are unchanged as well: the in-place
  multiplication writes into a tensor that the span selection allocated.
\<close>

theorem forward_leaves_inputs_unchanged:
  assumes inner: "matched_embedder_st st token_ids wordpiece_mask type_ids segment_concat_mask = (r, st1)"
    and frame: "preserved st st1"
    and run: "forward_st matched_embedder_st st token_ids mask' offsets wordpiece_mask type_ids segment_concat_mask = (res, st')"
  shows "preserved st st' \<and> preserved st1 st'
       \<and> (\<forall>a \<in> {token_ids, mask', offsets, wordpiece_mask} \<union> set_option type_ids
               \<union> set_option segment_concat_mask.
            a < length st \<longrightarrow> lookup st' a = lookup st a)"
proof -
  have 1: "preserved st1 st'" by (rule forward_st_frame[OF inner run])
  have 0: "preserved st st'" by (rule preserved_trans[OF frame 1])
  from 0 1 show ?thesis by (auto intro: preserved_lookup)
qed

theorem forward_leaves_inputs_unchanged_witness:
  "matched_call (matched lookup_embedder)
     [LongT [[5, 6, 7]], LongT [[1, 1]], OffsetsT [[(0, 1), (2, 2)]], LongT [[1, 1, 1]]] 0 3 None None
     = (Inr 4, [LongT [[5, 6, 7]], LongT [[1, 1]], OffsetsT [[(0, 1), (2, 2)]], LongT [[1, 1, 1]],
                FloatT3 [[[5, 1], [6, 1], [7, 1]]]])
   \<and> preserved [LongT [[5, 6, 7]], LongT [[1, 1]], OffsetsT [[(0, 1), (2, 2)]], LongT [[1, 1, 1]]]
       [LongT [[5, 6, 7]], LongT [[1, 1]], OffsetsT [[(0, 1), (2, 2)]], LongT [[1, 1, 1]],
        FloatT3 [[[5, 1], [6, 1], [7, 1]]]]
   \<and> forward_st (matched_call (matched lookup_embedder))
       [LongT [[5, 6, 7]], LongT [[1, 1]], OffsetsT [[(0, 1), (2, 2)]], LongT [[1, 1, 1]]] 0 1 2 3 None None
     = (Inr 9, [LongT [[5, 6, 7]], LongT [[1, 1]], OffsetsT [[(0, 1), (2, 2)]], LongT [[1, 1, 1]],
                FloatT3 [[[5, 1], [6, 1], [7, 1]]],
                FloatT4 [[[[6, 1], [5, 1]], [[7, 1], [0, 0]]]],
                BoolT3 [[[True, True], [True, False]]], FloatT3 [[[11, 2], [7, 1]]],
                LongT [[2, 1]], ValT [[[Fin (11 / 2), Fin 1], [Fin 7, Fin 1]]]])
   \<and> preserved [LongT [[5, 6, 7]], LongT [[1, 1]], OffsetsT [[(0, 1), (2, 2)]], LongT [[1, 1, 1]]]
       [LongT [[5, 6, 7]], LongT [[1, 1]], OffsetsT [[(0, 1), (2, 2)]], LongT [[1, 1, 1]],
                FloatT3 [[[5, 1], [6, 1], [7, 1]]],
                FloatT4 [[[[6, 1], [5, 1]], [[7, 1], [0, 0]]]],
                BoolT3 [[[True, True], [True, False]]], FloatT3 [[[11, 2], [7, 1]]],
                LongT [[2, 1]], ValT [[[Fin (11 / 2), Fin 1], [Fin 7, Fin 1]]]]
   \<and> lookup [LongT [[5, 6, 7]], LongT [[1, 1]], OffsetsT [[(0, 1), (2, 2)]], LongT [[1, 1, 1]],
                FloatT3 [[[5, 1], [6, 1], [7, 1]]],
                FloatT4 [[[[6, 1], [5, 1]], [[7, 1], [0, 0]]]],
                BoolT3 [[[True, True], [True, False]]], FloatT3 [[[11, 2], [7, 1]]],
                LongT [[2, 1]], ValT [[[Fin (11 / 2), Fin 1], [Fin 7, Fin 1]]]] 2
     = lookup [LongT [[5, 6, 7]], LongT [[1, 1]], OffsetsT [[(0, 1), (2, 2)]], LongT [[1, 1, 1]]] 2"
proof -
  let ?st = "[LongT [[5, 6, 7]], LongT [[1, 1]], OffsetsT [[(0, 1), (2, 2)]], LongT [[1, 1, 1]]]"
  let ?st1 = "[LongT [[5, 6, 7]], LongT [[1, 1]], OffsetsT [[(0, 1), (2, 2)]], LongT [[1, 1, 1]],
                FloatT3 [[[5, 1], [6, 1], [7, 1]]]]"
  let ?st' = "[LongT [[5, 6, 7]], LongT [[1, 1]], OffsetsT [[(0, 1), (2, 2)]], LongT [[1, 1, 1]],
                FloatT3 [[[5, 1], [6, 1], [7, 1]]],
                FloatT4 [[[[6, 1], [5, 1]], [[7, 1], [0, 0]]]],
                BoolT3 [[[True, True], [True, False]]], FloatT3 [[[11, 2], [7, 1]]],
                LongT [[2, 1]], ValT [[[Fin (11 / 2), Fin 1], [Fin 7, Fin 1]]]]"
  have h1: "matched_call (matched lookup_embedder) ?st 0 3 None None = (Inr 4, ?st1)"
    by (simp add: matched_call_def lookup_embedder_def lookup_def alloc_def)
  have h2: "preserved ?st ?st1" by (simp add: preserved_def)
  have h3: "forward_st (matched_call (matched lookup_embedder)) ?st 0 1 2 3 None None = (Inr 9, ?st')"
    by (simp add: eval_defs)
  note T = forward_leaves_inputs_unchanged[OF h1 h2 h3]
  from T have c1: "preserved ?st ?st'" by (rule conjunct1)
  from T have "\<forall>a \<in> {0, 1, 2, 3} \<union> set_option None \<union> set_option None.
            a < length ?st \<longrightarrow> lookup ?st' a = lookup ?st a"
    by (elim conjE)
  then have c2: "lookup ?st' 2 = lookup ?st 2" by simp
  from h1 h2 h3 c1 c2 show ?thesis by (intro conjI)
qed

end
